theory Spec2Isabelle
  imports Main "HOL-Library.AList"
begin

section \<open>Session ledger (storage.ts)\<close>

text \<open>
  \<^verbatim>\<open>localStorage\<close> is a string-keyed store of strings; \<^verbatim>\<open>getItem\<close> yields
  \<^verbatim>\<open>null\<close> (here \<open>None\<close>) for a key that is not there. \<^verbatim>\<open>Date.now()\<close> is passed in
  as the integer \<open>now\<close> (milliseconds). Numbers are modelled as unbounded integers: the
  values the ledger handles are millisecond time stamps, which a double represents exactly
  (below \<open>2 ^ 53\<close>).
\<close>

type_synonym storage = "string \<rightharpoonup> string"

definition ACCESS_TOKEN :: string where "ACCESS_TOKEN = ''seedkey_access_token''"
definition REFRESH_TOKEN :: string where "REFRESH_TOKEN = ''seedkey_refresh_token''"
definition EXPIRES_AT :: string where "EXPIRES_AT = ''seedkey_expires_at''"
definition USER_ID :: string where "USER_ID = ''seedkey_user_id''"

subsection \<open>Number.prototype.toString and parseInt(_, 10) on integers\<close>

definition digit_char :: "nat \<Rightarrow> char" where
  "digit_char d = ''0123456789'' ! d"

fun nat_digits :: "nat \<Rightarrow> string" where
  "nat_digits n = (if n < 10 then [digit_char n] else nat_digits (n div 10) @ [digit_char (n mod 10)])"

declare nat_digits.simps [simp del]

definition toString :: "int \<Rightarrow> string" where
  "toString i = (if i < 0 then CHR ''-'' # nat_digits (nat (- i)) else nat_digits (nat i))"

definition is_digit :: "char \<Rightarrow> bool" where
  "is_digit c = (48 \<le> (of_char c :: nat) \<and> (of_char c :: nat) \<le> 57)"

definition digit_val :: "char \<Rightarrow> nat" where
  "digit_val c = of_char c - 48"

definition is_space :: "char \<Rightarrow> bool" where
  "is_space c = ((of_char c :: nat) \<in> {9, 10, 11, 12, 13, 32})"

text \<open>The longest prefix of decimal digits; \<open>None\<close> when there is no digit (\<^verbatim>\<open>NaN\<close>).\<close>

fun parse_digits :: "string \<Rightarrow> nat option \<Rightarrow> nat option" where
  "parse_digits [] acc = acc"
| "parse_digits (c # cs) acc =
     (if is_digit c
      then parse_digits cs (Some (10 * (case acc of None \<Rightarrow> 0 | Some a \<Rightarrow> a) + digit_val c))
      else acc)"

text \<open>
  \<^verbatim>\<open>parseInt(s, 10)\<close>: leading white space is skipped, one sign is read, then the digits;
  \<open>None\<close> is \<^verbatim>\<open>NaN\<close>.
\<close>

definition parseInt :: "string \<Rightarrow> int option" where
  "parseInt s =
     (case dropWhile is_space s of
        [] \<Rightarrow> None
      | c # cs \<Rightarrow>
          if c = CHR ''-'' then map_option (\<lambda>n. - int n) (parse_digits cs None)
          else if c = CHR ''+'' then map_option int (parse_digits cs None)
          else map_option int (parse_digits (c # cs) None))"

subsection \<open>The ledger\<close>

record TokenInfo =
  accessToken :: string
  refreshToken :: string
  expiresIn :: int

text \<open>
  \<^verbatim>\<open>
  localStorage.setItem(ACCESS_TOKEN, tokens.accessToken);
  localStorage.setItem(REFRESH_TOKEN, tokens.refreshToken);
  const expiresAt = Date.now() + tokens.expiresIn * 1000;
  localStorage.setItem(EXPIRES_AT, expiresAt.toString());
  if (userId) localStorage.setItem(USER_ID, userId);
  \<close>
  An absent \<^verbatim>\<open>userId\<close> is \<open>None\<close>; the empty string is falsy as well.
\<close>

definition saveTokens :: "TokenInfo \<Rightarrow> string option \<Rightarrow> int \<Rightarrow> storage \<Rightarrow> storage" where
  "saveTokens tokens userId now st =
     (let st1 = st(ACCESS_TOKEN \<mapsto> accessToken tokens);
          st2 = st1(REFRESH_TOKEN \<mapsto> refreshToken tokens);
          expiresAt = now + expiresIn tokens * 1000;
          st3 = st2(EXPIRES_AT \<mapsto> toString expiresAt)
      in case userId of
           None \<Rightarrow> st3
         | Some u \<Rightarrow> if u = [] then st3 else st3(USER_ID \<mapsto> u))"

definition bufferMs :: int where
  "bufferMs = 5 * 60 * 1000"

text \<open>
  \<^verbatim>\<open>
  const expiresAt = localStorage.getItem(EXPIRES_AT);
  if (!expiresAt) return true;
  const bufferMs = 5 * 60 * 1000;
  const expired = Date.now() > parseInt(expiresAt, 10) - bufferMs;
  return expired;
  \<close>
  A comparison with \<^verbatim>\<open>NaN\<close> is false.
\<close>

definition isTokenExpired :: "storage \<Rightarrow> int \<Rightarrow> bool" where
  "isTokenExpired st now =
     (case st EXPIRES_AT of
        None \<Rightarrow> True
      | Some expiresAt \<Rightarrow>
          if expiresAt = [] then True
          else (case parseInt expiresAt of
                  None \<Rightarrow> False
                | Some e \<Rightarrow> now > e - bufferMs))"

definition clearTokens :: "storage \<Rightarrow> storage" where
  "clearTokens st = st(ACCESS_TOKEN := None, REFRESH_TOKEN := None, EXPIRES_AT := None, USER_ID := None)"

section \<open>Values, errors and constants (types.ts)\<close>

text \<open>
  Data that crosses a boundary (an event's \<^verbatim>\<open>detail\<close>, a parsed HTTP body, the optional
  arguments of a call) is a JavaScript value. Numbers are integers here.
\<close>

datatype json =
    JUndefined
  | JNull
  | JBool bool
  | JNum int
  | JStr string
  | JArr "json list"
  | JObj "(string \<times> json) list"

text \<open>Truthiness, as \<^verbatim>\<open>!x\<close>, \<^verbatim>\<open>x || y\<close> and \<^verbatim>\<open>if (x)\<close> see it.\<close>

fun truthy :: "json \<Rightarrow> bool" where
  "truthy JUndefined = False"
| "truthy JNull = False"
| "truthy (JBool b) = b"
| "truthy (JNum n) = (n \<noteq> 0)"
| "truthy (JStr s) = (s \<noteq> [])"
| "truthy (JArr xs) = True"
| "truthy (JObj kvs) = True"

definition js_or :: "json \<Rightarrow> json \<Rightarrow> json" where
  "js_or a b = (if truthy a then a else b)"

fun nullish :: "json \<Rightarrow> bool" where
  "nullish JUndefined = True"
| "nullish JNull = True"
| "nullish v = False"

text \<open>
  Reading a data property \<^verbatim>\<open>v.k\<close> of a value that is not \<^verbatim>\<open>null\<close> or
  \<^verbatim>\<open>undefined\<close>: an object yields the stored value or \<^verbatim>\<open>undefined\<close>; the
  property names read by the SDK are no properties of primitives or arrays.
\<close>

fun get_prop :: "json \<Rightarrow> string \<Rightarrow> json" where
  "get_prop (JObj kvs) k = (case map_of kvs k of None \<Rightarrow> JUndefined | Some v \<Rightarrow> v)"
| "get_prop v k = JUndefined"

text \<open>String conversion of a value, as the \<^verbatim>\<open>Error\<close> constructor applies it to its message.\<close>

fun join :: "string list \<Rightarrow> string" where
  "join [] = []"
| "join [x] = x"
| "join (x # y # zs) = x @ '','' @ join (y # zs)"

fun js_to_string :: "json \<Rightarrow> string" where
  "js_to_string JUndefined = ''undefined''"
| "js_to_string JNull = ''null''"
| "js_to_string (JBool b) = (if b then ''true'' else ''false'')"
| "js_to_string (JNum n) = toString n"
| "js_to_string (JStr s) = s"
| "js_to_string (JArr xs) = join (map (\<lambda>x. if nullish x then [] else js_to_string x) xs)"
| "js_to_string (JObj kvs) = ''[object Object]''"

definition SDK_VERSION :: string where "SDK_VERSION = ''0.0.1''"
definition EXTENSION_DOWNLOAD_URL :: string where "EXTENSION_DOWNLOAD_URL = []"
definition REQUEST_EVENT :: string where "REQUEST_EVENT = ''seedkey:v1:request''"
definition RESPONSE_EVENT :: string where "RESPONSE_EVENT = ''seedkey:v1:response''"

definition EXTENSION_NOT_FOUND :: string where "EXTENSION_NOT_FOUND = ''EXTENSION_NOT_FOUND''"
definition EXTENSION_NOT_CONFIGURED :: string where "EXTENSION_NOT_CONFIGURED = ''EXTENSION_NOT_CONFIGURED''"
definition TIMEOUT :: string where "TIMEOUT = ''TIMEOUT''"
definition NETWORK_ERROR :: string where "NETWORK_ERROR = ''NETWORK_ERROR''"
definition SERVER_ERROR :: string where "SERVER_ERROR = ''SERVER_ERROR''"
definition USER_NOT_FOUND :: string where "USER_NOT_FOUND = ''USER_NOT_FOUND''"
definition USER_EXISTS :: string where "USER_EXISTS = ''USER_EXISTS''"
definition INVALID_TOKEN :: string where "INVALID_TOKEN = ''INVALID_TOKEN''"

text \<open>
  What a \<^verbatim>\<open>throw\<close> or a rejection carries: a \<^verbatim>\<open>SeedKeyError\<close> (with the \<^verbatim>\<open>name\<close> its
  class sets, its public fields \<^verbatim>\<open>code\<close>, \<^verbatim>\<open>hint\<close>, \<^verbatim>\<open>downloadUrl\<close> as passed, its
  message as a string), any other \<^verbatim>\<open>Error\<close> (name and message), or a value that is no
  \<^verbatim>\<open>Error\<close> at all.
\<close>

datatype error =
    SeedKeyError (ename: string) (code: json) (message: string) (hint: json) (downloadUrl: json)
  | JsError string string
  | NonError json

fun isSeedKeyError :: "error \<Rightarrow> bool" where
  "isSeedKeyError (SeedKeyError n c m h d) = True"
| "isSeedKeyError e = False"

definition TypeError :: "string \<Rightarrow> error" where
  "TypeError m = JsError ''TypeError'' m"

text \<open>
  The message an \<^verbatim>\<open>Error\<close> is constructed with: \<^verbatim>\<open>undefined\<close> leaves the inherited
  empty message, anything else is converted to a string.
\<close>

definition error_message :: "json \<Rightarrow> string" where
  "error_message m = (if m = JUndefined then [] else js_to_string m)"

text \<open>\<^verbatim>\<open>new SeedKeyError(code, message, hint?, downloadUrl?)\<close>\<close>

definition new_SeedKeyError :: "json \<Rightarrow> json \<Rightarrow> json \<Rightarrow> json \<Rightarrow> error" where
  "new_SeedKeyError c m h d = SeedKeyError ''SeedKeyError'' c (error_message m) h d"

text \<open>
  \<^verbatim>\<open>new ExtensionNotFoundError(message = 'SeedKey extension not found. Please install it.')\<close>:
  the default applies to an absent (\<^verbatim>\<open>undefined\<close>) argument.
\<close>

definition new_ExtensionNotFoundError :: "json \<Rightarrow> error" where
  "new_ExtensionNotFoundError m =
     SeedKeyError ''ExtensionNotFoundError'' (JStr EXTENSION_NOT_FOUND)
       (error_message
          (if m = JUndefined then JStr ''SeedKey extension not found. Please install it.'' else m))
       (JStr ''Install SeedKey browser extension'')
       (JStr EXTENSION_DOWNLOAD_URL)"

definition new_ExtensionNotConfiguredError :: "json \<Rightarrow> error" where
  "new_ExtensionNotConfiguredError m =
     SeedKeyError ''ExtensionNotConfiguredError'' (JStr EXTENSION_NOT_CONFIGURED)
       (error_message
          (if m = JUndefined
           then JStr ''SeedKey extension is not configured. Please set up your identity.'' else m))
       (JStr ''Open SeedKey extension and create your identity'')
       JUndefined"

text \<open>
  Reading \<^verbatim>\<open>v.k\<close> where \<^verbatim>\<open>v\<close> may be \<^verbatim>\<open>null\<close> or \<^verbatim>\<open>undefined\<close>: that throws
  a \<^verbatim>\<open>TypeError\<close> (the message is the engine's; this is the wording of V8).
\<close>

definition member :: "json \<Rightarrow> string \<Rightarrow> error + json" where
  "member v k =
     (if nullish v
      then Inl (TypeError (''Cannot read properties of '' @ js_to_string v @
                           '' (reading '' @ [CHR 0x27] @ k @ [CHR 0x27] @ '')''))
      else Inr (get_prop v k))"

text \<open>
  Object spread \<^verbatim>\<open>{...a, ...b}\<close> on property lists: a key of \<^verbatim>\<open>b\<close> overwrites in place
  when \<^verbatim>\<open>a\<close> has it and is appended otherwise.
\<close>

definition spread :: "('k \<times> 'v) list \<Rightarrow> ('k \<times> 'v) list \<Rightarrow> ('k \<times> 'v) list" where
  "spread a b = fold (\<lambda>(k, v). AList.update k v) b a"

section \<open>Remote verification client (api.ts)\<close>

text \<open>
  The global \<^verbatim>\<open>fetch\<close> is a parameter: given the URL and the request it either throws or
  yields a response, whose \<^verbatim>\<open>json()\<close> either throws or yields the parsed body. A request's
  body is kept as the value handed to \<^verbatim>\<open>JSON.stringify\<close>. Logging is left out.
\<close>

record response =
  ok :: bool
  status :: int
  json_result :: "error + json"

record request_init =
  http_method :: "string option"
  headers :: "(string \<times> string) list"
  body :: "json option"

type_synonym fetch_fn = "string \<Rightarrow> request_init \<Rightarrow> error + response"

text \<open>
  \<^verbatim>\<open>`Network error: ${error instanceof Error ? error.message : 'Unknown error'}`\<close>
\<close>

definition network_error :: "error \<Rightarrow> error" where
  "network_error e =
     new_SeedKeyError (JStr NETWORK_ERROR)
       (JStr (''Network error: '' @
          (case e of
             SeedKeyError n c m h d \<Rightarrow> m
           | JsError n m \<Rightarrow> m
           | NonError v \<Rightarrow> ''Unknown error'')))
       JUndefined JUndefined"

text \<open>
  \<^verbatim>\<open>
  private async fetch(endpoint, options = {}) {
    const url = `${this.baseUrl}${endpoint}`;
    const headers = { 'Content-Type': 'application/json', ...options.headers };
    try { return await fetch(url, { ...options, headers }); }
    catch (error) { throw new SeedKeyError(NETWORK_ERROR, `Network error: ...`); }
  }
  \<close>
\<close>

definition ApiClient_fetch :: "string \<Rightarrow> fetch_fn \<Rightarrow> string \<Rightarrow> request_init \<Rightarrow> error + response" where
  "ApiClient_fetch baseUrl fetch endpoint options =
     (case fetch (baseUrl @ endpoint)
             (options\<lparr>headers := spread [(''Content-Type'', ''application/json'')] (headers options)\<rparr>) of
        Inl e \<Rightarrow> Inl (network_error e)
      | Inr r \<Rightarrow> Inr r)"

text \<open>
  The shared shape of the three failure branches:
  \<^verbatim>\<open>
  const error = await response.json();
  throw new SeedKeyError(error.error || <fallback code>, error.message || <default message>);
  \<close>
  The value is what the branch throws: \<^verbatim>\<open>json()\<close> may throw itself, and reading a
  property of \<^verbatim>\<open>null\<close> throws a \<^verbatim>\<open>TypeError\<close>.
\<close>

definition api_failure :: "response \<Rightarrow> string \<Rightarrow> string \<Rightarrow> error" where
  "api_failure r fallbackCode defaultMessage =
     (case json_result r of
        Inl e \<Rightarrow> e
      | Inr err \<Rightarrow>
          (case member err ''error'' of
             Inl e \<Rightarrow> e
           | Inr c \<Rightarrow>
               new_SeedKeyError (js_or c (JStr fallbackCode))
                 (js_or (get_prop err ''message'') (JStr defaultMessage)) JUndefined JUndefined))"

text \<open>
  \<^verbatim>\<open>
  async getUser(accessToken) {
    const response = await this.fetch('/api/v1/seedkey/user',
      { method: 'GET', headers: { 'Authorization': `Bearer ${accessToken}` } });
    if (!response.ok) {
      const error = await response.json();
      throw new SeedKeyError(error.error || ERROR_CODES.SERVER_ERROR,
                             error.message || 'Failed to get user');
    }
    const data = await response.json();
    log.info('User retrieved', { userId: data.user?.id });
    return data.user;
  }
  \<close>
\<close>

definition ApiClient_getUser :: "string \<Rightarrow> fetch_fn \<Rightarrow> string \<Rightarrow> error + json" where
  "ApiClient_getUser baseUrl fetch token =
     (case ApiClient_fetch baseUrl fetch ''/api/v1/seedkey/user''
             \<lparr>http_method = Some ''GET'',
              headers = [(''Authorization'', ''Bearer '' @ token)],
              body = None\<rparr> of
        Inl e \<Rightarrow> Inl e
      | Inr r \<Rightarrow>
          if \<not> ok r then Inl (api_failure r SERVER_ERROR ''Failed to get user'')
          else (case json_result r of
                  Inl e \<Rightarrow> Inl e
                | Inr data \<Rightarrow> member data ''user''))"

definition ApiClient_logout :: "string \<Rightarrow> fetch_fn \<Rightarrow> string \<Rightarrow> error + unit" where
  "ApiClient_logout baseUrl fetch token =
     (case ApiClient_fetch baseUrl fetch ''/api/v1/seedkey/logout''
             \<lparr>http_method = Some ''POST'',
              headers = [(''Authorization'', ''Bearer '' @ token)],
              body = None\<rparr> of
        Inl e \<Rightarrow> Inl e
      | Inr r \<Rightarrow>
          if \<not> ok r then Inl (api_failure r SERVER_ERROR ''Logout failed'')
          else Inr ())"

text \<open>
  \<^verbatim>\<open>refreshToken\<close> passes no headers, and its fallback code is \<^verbatim>\<open>INVALID_TOKEN\<close>:
  \<^verbatim>\<open>
  throw new SeedKeyError(error.error || ERROR_CODES.INVALID_TOKEN,
                         error.message || 'Token refresh failed');
  \<close>
  On success it logs \<^verbatim>\<open>result.expiresIn\<close>, which throws on \<^verbatim>\<open>null\<close>.
\<close>

definition ApiClient_refreshToken :: "string \<Rightarrow> fetch_fn \<Rightarrow> string \<Rightarrow> error + json" where
  "ApiClient_refreshToken baseUrl fetch token =
     (case ApiClient_fetch baseUrl fetch ''/api/v1/seedkey/refresh''
             \<lparr>http_method = Some ''POST'',
              headers = [],
              body = Some (JObj [(''refreshToken'', JStr token)])\<rparr> of
        Inl e \<Rightarrow> Inl e
      | Inr r \<Rightarrow>
          if \<not> ok r then Inl (api_failure r INVALID_TOKEN ''Token refresh failed'')
          else (case json_result r of
                  Inl e \<Rightarrow> Inl e
                | Inr result \<Rightarrow>
                    (case member result ''expiresIn'' of
                       Inl e \<Rightarrow> Inl e
                     | Inr x \<Rightarrow> Inr result)))"

section \<open>Correlated transport (seedkey.ts)\<close>

text \<open>
  The instance lives in a browser page (\<^verbatim>\<open>document\<close> and \<^verbatim>\<open>window\<close> exist, which
  \<^verbatim>\<open>sendToExtension\<close> requires). Next to the fields of the class, the state holds the
  parts of the page that the instance's closures act on: whether \<^verbatim>\<open>handleResponse\<close> is
  registered for the response event, the timers armed by \<^verbatim>\<open>setTimeout\<close> and not yet
  fired or cleared, the requests dispatched, and the log of every call of a promise's
  \<^verbatim>\<open>resolve\<close> or \<^verbatim>\<open>reject\<close>, in order. A promise is named by a number; the
  \<^verbatim>\<open>resolve\<close> and \<^verbatim>\<open>reject\<close> of a table entry are those of its promise.
\<close>

datatype SeedKeyAction = check_available | is_initialized | get_public_key | sign_challenge | sign_message

record SeedKeyOptions =
  opt_backendUrl :: string
  opt_timeout :: "int option"
  opt_debug :: "bool option"

record pending_request =
  promise :: nat
  timeoutId :: nat

record timer =
  tm_requestId :: string
  tm_promise :: nat
  tm_delay :: int

datatype settlement = Resolve json | Reject error

record SeedKeyRequest =
  req_version :: string
  req_action :: SeedKeyAction
  req_requestId :: string
  req_origin :: string
  req_payload :: json

record SeedKey =
  backendUrl :: string
  timeout :: int
  pendingRequests :: "(string \<times> pending_request) list"
  listening :: bool
  timers :: "(nat \<times> timer) list"
  settled :: "(nat \<times> settlement) list"
  dispatched :: "SeedKeyRequest list"
  nextPromise :: nat
  nextTimer :: nat

text \<open>
  \<^verbatim>\<open>
  constructor(options) {
    this.backendUrl = options.backendUrl;
    this.timeout = options.timeout || 60000;
    document.addEventListener(RESPONSE_EVENT, this.handleResponse);
  }
  \<close>
  The \<^verbatim>\<open>debug\<close> option only switches logging on. A timeout of \<^verbatim>\<open>0\<close> is falsy, as an
  absent one is.
\<close>

definition new_SeedKey :: "SeedKeyOptions \<Rightarrow> SeedKey" where
  "new_SeedKey options =
     \<lparr>backendUrl = opt_backendUrl options,
      timeout = (case opt_timeout options of None \<Rightarrow> 60000 | Some t \<Rightarrow> if t = 0 then 60000 else t),
      pendingRequests = [],
      listening = True,
      timers = [],
      settled = [],
      dispatched = [],
      nextPromise = 0,
      nextTimer = 0\<rparr>"

text \<open>\<^verbatim>\<open>v?.k\<close>\<close>

definition opt_member :: "json \<Rightarrow> string \<Rightarrow> json" where
  "opt_member v k = (if nullish v then JUndefined else get_prop v k)"

text \<open>
  What \<^verbatim>\<open>handleResponse\<close> settles the entry with:
  \<^verbatim>\<open>
  if (data.success) pending.resolve(data.result);
  else pending.reject(new SeedKeyError(data.error?.code || ERROR_CODES.SERVER_ERROR,
                                       data.error?.message || 'Extension error'));
  \<close>
\<close>

definition response_settlement :: "json \<Rightarrow> settlement" where
  "response_settlement data =
     (if truthy (get_prop data ''success'') then Resolve (get_prop data ''result'')
      else Reject (new_SeedKeyError
                     (js_or (opt_member (get_prop data ''error'') ''code'') (JStr SERVER_ERROR))
                     (js_or (opt_member (get_prop data ''error'') ''message'') (JStr ''Extension error''))
                     JUndefined JUndefined))"

text \<open>
  \<^verbatim>\<open>this.pendingRequests.get(data.requestId)\<close>: the keys of the table are strings, so a
  \<^verbatim>\<open>requestId\<close> that is no string finds nothing.
\<close>

definition lookup_pending :: "SeedKey \<Rightarrow> json \<Rightarrow> (string \<times> pending_request) option" where
  "lookup_pending s rid =
     (case rid of
        JStr r \<Rightarrow> (case map_of (pendingRequests s) r of None \<Rightarrow> None | Some pe \<Rightarrow> Some (r, pe))
      | _ \<Rightarrow> None)"

text \<open>
  \<^verbatim>\<open>
  private handleResponse = (event) => {
    const data = event.detail;
    if (!data || data.type !== 'SEEDKEY_RESPONSE') return;
    const pending = this.pendingRequests.get(data.requestId);
    if (!pending) return;
    clearTimeout(pending.timeoutId);
    this.pendingRequests.delete(data.requestId);
    if (data.success) ... else ...
  };
  \<close>
\<close>

definition handleResponse :: "json \<Rightarrow> SeedKey \<Rightarrow> SeedKey" where
  "handleResponse data s =
     (if \<not> truthy data \<or> get_prop data ''type'' \<noteq> JStr ''SEEDKEY_RESPONSE'' then s
      else (case lookup_pending s (get_prop data ''requestId'') of
              None \<Rightarrow> s
            | Some (rid, pe) \<Rightarrow>
                s\<lparr>timers := AList.delete (timeoutId pe) (timers s),
                  pendingRequests := AList.delete rid (pendingRequests s),
                  settled := settled s @ [(promise pe, response_settlement data)]\<rparr>))"

text \<open>
  \<^verbatim>\<open>
  private async sendToExtension(action, payload, customTimeout?) {
    const requestId = this.generateRequestId();
    const timeout = customTimeout || this.timeout;
    const request = { type: 'SEEDKEY_REQUEST', version: SDK_VERSION, action, requestId,
                      origin: window.location.origin, payload };
    return new Promise((resolve, reject) => {
      const timeoutId = setTimeout(() => { ... }, timeout);
      this.pendingRequests.set(requestId, { resolve, reject, timeoutId });
      document.dispatchEvent(new CustomEvent(REQUEST_EVENT, { detail: request, bubbles: true }));
    });
  }
  \<close>
  The identifier that \<^verbatim>\<open>generateRequestId\<close> returns (time stamp and random suffix) and
  the page's origin are arguments. The promise returned is \<open>nextPromise s\<close>.
  \<^verbatim>\<open>Map.set\<close> keeps the position of a key that is already there.
\<close>

definition effective_timeout :: "SeedKey \<Rightarrow> int option \<Rightarrow> int" where
  "effective_timeout s customTimeout =
     (case customTimeout of None \<Rightarrow> timeout s | Some t \<Rightarrow> if t = 0 then timeout s else t)"

definition sendToExtension ::
  "SeedKeyAction \<Rightarrow> json \<Rightarrow> int option \<Rightarrow> string \<Rightarrow> string \<Rightarrow> SeedKey \<Rightarrow> SeedKey" where
  "sendToExtension action payload customTimeout requestId origin s =
     s\<lparr>timers :=
         AList.update (nextTimer s)
           \<lparr>tm_requestId = requestId, tm_promise = nextPromise s,
            tm_delay = effective_timeout s customTimeout\<rparr> (timers s),
       pendingRequests :=
         AList.update requestId \<lparr>promise = nextPromise s, timeoutId = nextTimer s\<rparr> (pendingRequests s),
       dispatched :=
         dispatched s @
           [\<lparr>req_version = SDK_VERSION, req_action = action, req_requestId = requestId,
             req_origin = origin, req_payload = payload\<rparr>],
       nextPromise := Suc (nextPromise s),
       nextTimer := Suc (nextTimer s)\<rparr>"

text \<open>
  The callback handed to \<^verbatim>\<open>setTimeout\<close>, run when timer \<open>t\<close> expires (an armed timer
  fires once; a cleared or unknown one never does):
  \<^verbatim>\<open>
  () => {
    this.pendingRequests.delete(requestId);
    reject(new ExtensionNotFoundError(
      'Request timed out. Make sure SeedKey extension is installed.'));
  }
  \<close>
\<close>

definition timeout_error :: error where
  "timeout_error =
     new_ExtensionNotFoundError (JStr ''Request timed out. Make sure SeedKey extension is installed.'')"

definition timer_fires :: "nat \<Rightarrow> SeedKey \<Rightarrow> SeedKey" where
  "timer_fires t s =
     (case map_of (timers s) t of
        None \<Rightarrow> s
      | Some tm \<Rightarrow>
          s\<lparr>timers := AList.delete t (timers s),
            pendingRequests := AList.delete (tm_requestId tm) (pendingRequests s),
            settled := settled s @ [(tm_promise tm, Reject timeout_error)]\<rparr>)"

text \<open>
  \<^verbatim>\<open>
  destroy() {
    document.removeEventListener(RESPONSE_EVENT, this.handleResponse);
    for (const [requestId, { reject, timeoutId }] of this.pendingRequests) {
      clearTimeout(timeoutId);
      reject(new SeedKeyError(ERROR_CODES.TIMEOUT, 'SDK destroyed'));
    }
    this.pendingRequests.clear();
  }
  \<close>
  The loop visits the entries in insertion order; \<open>cancel\<close> is its body.
\<close>

definition destroyed_error :: error where
  "destroyed_error = new_SeedKeyError (JStr TIMEOUT) (JStr ''SDK destroyed'') JUndefined JUndefined"

definition cancel :: "string \<times> pending_request \<Rightarrow> SeedKey \<Rightarrow> SeedKey" where
  "cancel entry s =
     s\<lparr>timers := AList.delete (timeoutId (snd entry)) (timers s),
       settled := settled s @ [(promise (snd entry), Reject destroyed_error)]\<rparr>"

definition destroy :: "SeedKey \<Rightarrow> SeedKey" where
  "destroy s = (fold cancel (pendingRequests s) (s\<lparr>listening := False\<rparr>))\<lparr>pendingRequests := []\<rparr>"

text \<open>
  What can happen to an instance: a call of \<^verbatim>\<open>sendToExtension\<close>, a response event
  dispatched on the document (it reaches \<^verbatim>\<open>handleResponse\<close> only while the listener is
  registered), the expiry of a timer, a call of \<^verbatim>\<open>destroy\<close>.
\<close>

datatype event =
    Send SeedKeyAction json "int option" string string
  | Deliver json
  | Fire nat
  | Destroy

fun step :: "event \<Rightarrow> SeedKey \<Rightarrow> SeedKey" where
  "step (Send action payload customTimeout requestId origin) s =
     sendToExtension action payload customTimeout requestId origin s"
| "step (Deliver data) s = (if listening s then handleResponse data s else s)"
| "step (Fire t) s = timer_fires t s"
| "step Destroy s = destroy s"

definition run :: "event list \<Rightarrow> SeedKey \<Rightarrow> SeedKey" where
  "run evs s = fold step evs s"

subsection \<open>The default instance\<close>

text \<open>
  Instances are objects: the module state holds the objects created so far, by reference,
  and the module variable \<^verbatim>\<open>defaultInstance\<close>.
  \<^verbatim>\<open>
  export function getSeedKey(options?) {
    if (!defaultInstance && options) defaultInstance = new SeedKey(options);
    if (!defaultInstance)
      throw new Error('SeedKey SDK not initialized. Call getSeedKey with options first.');
    return defaultInstance;
  }
  export function resetSeedKey() {
    if (defaultInstance) { defaultInstance.destroy(); defaultInstance = null; }
  }
  \<close>
\<close>

record module_state =
  heap :: "nat \<rightharpoonup> SeedKey"
  nextRef :: nat
  defaultInstance :: "nat option"

definition initial_module :: module_state where
  "initial_module = \<lparr>heap = Map.empty, nextRef = 0, defaultInstance = None\<rparr>"

definition not_initialized_error :: error where
  "not_initialized_error =
     JsError ''Error'' ''SeedKey SDK not initialized. Call getSeedKey with options first.''"

definition getSeedKey :: "SeedKeyOptions option \<Rightarrow> module_state \<Rightarrow> (error + nat) \<times> module_state" where
  "getSeedKey options m =
     (let m1 = (case (defaultInstance m, options) of
                  (None, Some opts) \<Rightarrow>
                    m\<lparr>heap := (heap m)(nextRef m \<mapsto> new_SeedKey opts),
                      nextRef := Suc (nextRef m),
                      defaultInstance := Some (nextRef m)\<rparr>
                | _ \<Rightarrow> m)
      in case defaultInstance m1 of
           None \<Rightarrow> (Inl not_initialized_error, m1)
         | Some r \<Rightarrow> (Inr r, m1))"

definition resetSeedKey :: "module_state \<Rightarrow> module_state" where
  "resetSeedKey m =
     (case defaultInstance m of
        None \<Rightarrow> m
      | Some r \<Rightarrow>
          m\<lparr>heap := (case heap m r of None \<Rightarrow> heap m | Some s \<Rightarrow> (heap m)(r \<mapsto> destroy s)),
            defaultInstance := None\<rparr>)"

section \<open>Flow orchestrator (seedkey.ts)\<close>

text \<open>
  An \<^verbatim>\<open>async\<close> method is a function of the history of what the instance has asked of
  its surroundings so far: it returns what its promise settles with (\<open>Inl\<close> a rejection)
  and the extended history. The surroundings answer each request, possibly depending on
  the history: \<open>extension\<close> gives what the promise of \<^verbatim>\<open>sendToExtension\<close> settles with
  (by a response, its timer, or \<^verbatim>\<open>destroy\<close>), \<open>fetch\<close> what the global \<^verbatim>\<open>fetch\<close> does.
  \<^verbatim>\<open>log.group\<close> calls are part of the history; other logging is left out, except that
  the arguments of a log call are evaluated and may throw.
\<close>

datatype call =
    LogGroup string
  | ExtCall SeedKeyAction json int "error + json"
  | HttpCall string request_init "error + response"

record world =
  extension :: "call list \<Rightarrow> SeedKeyAction \<Rightarrow> json \<Rightarrow> int \<Rightarrow> error + json"
  fetch :: "call list \<Rightarrow> string \<Rightarrow> request_init \<Rightarrow> error + response"
  hostname :: string
  userAgent :: string

type_synonym 'a flow = "call list \<Rightarrow> (error + 'a) \<times> call list"

text \<open>\<^verbatim>\<open>const x = await m; ...\<close>: a rejection of \<open>m\<close> leaves the function.\<close>

definition await :: "'a flow \<Rightarrow> ('a \<Rightarrow> 'b flow) \<Rightarrow> 'b flow" where
  "await m f tr = (case m tr of (Inl e, tr') \<Rightarrow> (Inl e, tr') | (Inr x, tr') \<Rightarrow> f x tr')"

text \<open>A synchronous step that may throw.\<close>

definition sync :: "error + 'a \<Rightarrow> 'a flow" where
  "sync r tr = (r, tr)"

definition log_group :: "string \<Rightarrow> unit flow" where
  "log_group label tr = (Inr (), tr @ [LogGroup label])"

text \<open>Awaiting \<^verbatim>\<open>this.sendToExtension(action, payload, customTimeout)\<close>.\<close>

definition send :: "SeedKey \<Rightarrow> world \<Rightarrow> SeedKeyAction \<Rightarrow> json \<Rightarrow> int option \<Rightarrow> json flow" where
  "send sk w action payload customTimeout tr =
     (let t = effective_timeout sk customTimeout;
          out = extension w tr action payload t
      in (out, tr @ [ExtCall action payload t out]))"

text \<open>
  \<^verbatim>\<open>
  async isAvailable() {
    try {
      const response = await this.sendToExtension('check_available', {}, 3000);
      const available = response.available === true;
      return available;
    } catch (error) { return false; }
  }
  \<close>
\<close>

definition isAvailable :: "SeedKey \<Rightarrow> world \<Rightarrow> bool flow" where
  "isAvailable sk w tr =
     (case send sk w check_available (JObj []) (Some 3000) tr of
        (Inl e, tr') \<Rightarrow> (Inr False, tr')
      | (Inr response, tr') \<Rightarrow>
          (case member response ''available'' of
             Inl e \<Rightarrow> (Inr False, tr')
           | Inr v \<Rightarrow> (Inr (v = JBool True), tr')))"

definition isInitialized :: "SeedKey \<Rightarrow> world \<Rightarrow> bool flow" where
  "isInitialized sk w tr =
     (case send sk w is_initialized (JObj []) (Some 3000) tr of
        (Inl e, tr') \<Rightarrow> (Inr False, tr')
      | (Inr response, tr') \<Rightarrow>
          (case member response ''initialized'' of
             Inl e \<Rightarrow> (Inr False, tr')
           | Inr v \<Rightarrow> (Inr (v = JBool True), tr')))"

record ExtensionStatus =
  installed :: bool
  initialized :: bool
  status_downloadUrl :: "string option"

definition checkExtension :: "SeedKey \<Rightarrow> world \<Rightarrow> ExtensionStatus flow" where
  "checkExtension sk w =
     await (isAvailable sk w) (\<lambda>inst.
       if \<not> inst then sync (Inl (new_ExtensionNotFoundError JUndefined))
       else await (isInitialized sk w) (\<lambda>init.
         if \<not> init then sync (Inl (new_ExtensionNotConfiguredError JUndefined))
         else sync (Inr \<lparr>installed = True, initialized = True, status_downloadUrl = None\<rparr>)))"

definition getExtensionStatus :: "SeedKey \<Rightarrow> world \<Rightarrow> ExtensionStatus flow" where
  "getExtensionStatus sk w =
     await (isAvailable sk w) (\<lambda>inst.
       if \<not> inst
       then sync (Inr \<lparr>installed = False, initialized = False,
                       status_downloadUrl = Some EXTENSION_DOWNLOAD_URL\<rparr>)
       else await (isInitialized sk w) (\<lambda>init.
         sync (Inr \<lparr>installed = True, initialized = init, status_downloadUrl = None\<rparr>)))"

text \<open>
  \<^verbatim>\<open>
  async getPublicKey() {
    const response = await this.sendToExtension('get_public_key',
                                                { domain: window.location.hostname });
    log.info('Public key received', { publicKey: `${response.publicKey.slice(0, 16)}...` });
    return response.publicKey;
  }
  \<close>
  \<^verbatim>\<open>slice\<close> exists on strings and arrays only.
\<close>

definition has_slice :: "json \<Rightarrow> error + unit" where
  "has_slice v =
     (case v of
        JStr s \<Rightarrow> Inr ()
      | JArr xs \<Rightarrow> Inr ()
      | _ \<Rightarrow> Inl (TypeError ''slice is not a function''))"

definition getPublicKey :: "SeedKey \<Rightarrow> world \<Rightarrow> json flow" where
  "getPublicKey sk w =
     await (send sk w get_public_key (JObj [(''domain'', JStr (hostname w))]) None) (\<lambda>response.
     await (sync (member response ''publicKey'')) (\<lambda>publicKey.
     await (sync (has_slice publicKey)) (\<lambda>u.
     sync (Inr publicKey))))"

text \<open>
  \<^verbatim>\<open>
  async signMessage(message) {
    log.debug('Requesting message signature...', { messageLength: message.length });
    const response = await this.sendToExtension('sign_message',
                                                { message, domain: window.location.hostname });
    log.info('Message signed', { signatureLength: response.signature.length });
    return response;
  }
  \<close>
\<close>

definition signMessage :: "SeedKey \<Rightarrow> world \<Rightarrow> json \<Rightarrow> json flow" where
  "signMessage sk w msg =
     await (sync (member msg ''length'')) (\<lambda>u.
     await (send sk w sign_message
              (JObj [(''message'', msg), (''domain'', JStr (hostname w))]) None) (\<lambda>response.
     await (sync (member response ''signature'')) (\<lambda>signature.
     await (sync (member signature ''length'')) (\<lambda>u.
     sync (Inr response)))))"

text \<open>
  \<^verbatim>\<open>
  async signChallenge(challenge) {
    log.debug('Requesting challenge signature...', { action: challenge.action });
    const response = await this.sendToExtension('sign_challenge',
                                                { challenge, domain: window.location.hostname });
    log.info('Challenge signed', { signatureLength: response.signature.length });
    return response;
  }
  \<close>
\<close>

definition signChallenge :: "SeedKey \<Rightarrow> world \<Rightarrow> json \<Rightarrow> json flow" where
  "signChallenge sk w challenge =
     await (sync (member challenge ''action'')) (\<lambda>u.
     await (send sk w sign_challenge
              (JObj [(''challenge'', challenge), (''domain'', JStr (hostname w))]) None) (\<lambda>response.
     await (sync (member response ''signature'')) (\<lambda>signature.
     await (sync (member signature ''length'')) (\<lambda>u.
     sync (Inr response)))))"

text \<open>
  \<^verbatim>\<open>
  private async httpPost(path, body, headers = {}) {
    const url = `${this.backendUrl}${path}`;
    try {
      const response = await fetch(url, { method: 'POST',
        headers: { 'Content-Type': 'application/json', ...headers },
        body: JSON.stringify(body) });
      const data = await response.json();
      if (!response.ok) {
        throw new SeedKeyError(data.error || ERROR_CODES.SERVER_ERROR,
                               data.message || 'Server error', data.hint);
      }
      return data;
    } catch (error) {
      if (error instanceof SeedKeyError) throw error;
      throw new SeedKeyError(ERROR_CODES.NETWORK_ERROR, `Network error: ...`);
    }
  }
  \<close>
  \<^verbatim>\<open>httpGet\<close> is the same with \<^verbatim>\<open>method: 'GET'\<close> and no body.
\<close>

definition http_catch :: "error \<Rightarrow> error" where
  "http_catch e = (if isSeedKeyError e then e else network_error e)"

definition http_result :: "response \<Rightarrow> error + json" where
  "http_result r =
     (case json_result r of
        Inl e \<Rightarrow> Inl (http_catch e)
      | Inr data \<Rightarrow>
          if \<not> ok r
          then (case member data ''error'' of
                  Inl e \<Rightarrow> Inl (http_catch e)
                | Inr c \<Rightarrow>
                    Inl (new_SeedKeyError (js_or c (JStr SERVER_ERROR))
                           (js_or (get_prop data ''message'') (JStr ''Server error''))
                           (get_prop data ''hint'') JUndefined))
          else Inr data)"

definition http_request :: "SeedKey \<Rightarrow> world \<Rightarrow> string \<Rightarrow> request_init \<Rightarrow> json flow" where
  "http_request sk w path init tr =
     (let url = backendUrl sk @ path;
          out = fetch w tr url init;
          tr' = tr @ [HttpCall url init out]
      in case out of
           Inl e \<Rightarrow> (Inl (http_catch e), tr')
         | Inr r \<Rightarrow> (http_result r, tr'))"

definition httpPost :: "SeedKey \<Rightarrow> world \<Rightarrow> string \<Rightarrow> json \<Rightarrow> (string \<times> string) list \<Rightarrow> json flow" where
  "httpPost sk w path b hdrs =
     http_request sk w path
       \<lparr>http_method = Some ''POST'',
        headers = spread [(''Content-Type'', ''application/json'')] hdrs,
        body = Some b\<rparr>"

definition httpGet :: "SeedKey \<Rightarrow> world \<Rightarrow> string \<Rightarrow> (string \<times> string) list \<Rightarrow> json flow" where
  "httpGet sk w path hdrs =
     http_request sk w path
       \<lparr>http_method = Some ''GET'',
        headers = spread [(''Content-Type'', ''application/json'')] hdrs,
        body = None\<rparr>"

definition requestChallenge :: "SeedKey \<Rightarrow> world \<Rightarrow> json \<Rightarrow> string \<Rightarrow> json flow" where
  "requestChallenge sk w publicKey action =
     httpPost sk w ''/api/v1/seedkey/challenge''
       (JObj [(''publicKey'', publicKey), (''action'', JStr action)]) []"

text \<open>\<^verbatim>\<open>String.prototype.includes\<close>\<close>

fun starts_with :: "string \<Rightarrow> string \<Rightarrow> bool" where
  "starts_with s [] = True"
| "starts_with [] (c # cs) = False"
| "starts_with (x # xs) (c # cs) = (x = c \<and> starts_with xs cs)"

fun str_includes :: "string \<Rightarrow> string \<Rightarrow> bool" where
  "str_includes [] sub = (sub = [])"
| "str_includes (x # xs) sub = (starts_with (x # xs) sub \<or> str_includes xs sub)"

definition getDeviceName :: "world \<Rightarrow> string" where
  "getDeviceName w =
     (let ua = userAgent w;
          browser = (if str_includes ua ''Chrome'' then ''Chrome''
                     else if str_includes ua ''Firefox'' then ''Firefox''
                     else if str_includes ua ''Safari'' then ''Safari'' else ''Browser'');
          os = (if str_includes ua ''Windows'' then ''Windows''
                else if str_includes ua ''Mac'' then ''macOS''
                else if str_includes ua ''Linux'' then ''Linux'' else ''Unknown'')
      in browser @ '' on '' @ os)"

text \<open>
  The own enumerable properties that \<^verbatim>\<open>{...result}\<close> copies. The flows reach the spread
  only with an object: \<^verbatim>\<open>result.user.id\<close> has been read before.
\<close>

fun own_properties :: "json \<Rightarrow> (string \<times> json) list" where
  "own_properties (JObj kvs) = kvs"
| "own_properties (JArr xs) = zip (map (\<lambda>i. toString (int i)) [0..<length xs]) xs"
| "own_properties (JStr s) = zip (map (\<lambda>i. toString (int i)) [0..<length s]) (map (\<lambda>c. JStr [c]) s)"
| "own_properties v = []"

definition with_action :: "json \<Rightarrow> string \<Rightarrow> json" where
  "with_action result a = JObj (spread (own_properties result) [(''action'', JStr a)])"

text \<open>
  \<^verbatim>\<open>
  async register(opts?) {
    log.group('User registration');
    try {
      const publicKey = await this.getPublicKey();
      const { challenge } = await this.requestChallenge(publicKey, 'register');
      const { signature } = await this.signChallenge(challenge);
      const result = await this.httpPost('/api/v1/seedkey/register', {
        publicKey, challenge, signature,
        metadata: { deviceName: opts?.metadata?.deviceName || this.getDeviceName(),
                    sdkVersion: SDK_VERSION } });
      log.info('Registration successful', { userId: result.user.id });
      return { ...result, action: 'register' };
    } catch (error) { throw error; }
  }
  \<close>
\<close>

definition register :: "SeedKey \<Rightarrow> world \<Rightarrow> json \<Rightarrow> json flow" where
  "register sk w opts =
     await (log_group ''User registration'') (\<lambda>u.
     await (getPublicKey sk w) (\<lambda>publicKey.
     await (requestChallenge sk w publicKey ''register'') (\<lambda>cr.
     await (sync (member cr ''challenge'')) (\<lambda>challenge.
     await (signChallenge sk w challenge) (\<lambda>sr.
     await (sync (member sr ''signature'')) (\<lambda>signature.
     await (httpPost sk w ''/api/v1/seedkey/register''
              (JObj [(''publicKey'', publicKey), (''challenge'', challenge), (''signature'', signature),
                     (''metadata'',
                        JObj [(''deviceName'',
                                 js_or (opt_member (opt_member opts ''metadata'') ''deviceName'')
                                   (JStr (getDeviceName w))),
                              (''sdkVersion'', JStr SDK_VERSION)])]) []) (\<lambda>result.
     await (sync (member result ''user'')) (\<lambda>user.
     await (sync (member user ''id'')) (\<lambda>uid.
     sync (Inr (with_action result ''register'')))))))))))"

text \<open>
  \<^verbatim>\<open>
  async authenticate() {
    log.group('User authentication');
    try {
      const publicKey = await this.getPublicKey();
      const { challenge, challengeId } = await this.requestChallenge(publicKey, 'authenticate');
      const { signature } = await this.signChallenge(challenge);
      const result = await this.httpPost('/api/v1/seedkey/verify',
                                         { challengeId, challenge, signature, publicKey });
      log.info('Authentication successful', { userId: result.user.id });
      return { ...result, action: 'login' };
    } catch (error) { throw error; }
  }
  \<close>
\<close>

definition authenticate :: "SeedKey \<Rightarrow> world \<Rightarrow> json flow" where
  "authenticate sk w =
     await (log_group ''User authentication'') (\<lambda>u.
     await (getPublicKey sk w) (\<lambda>publicKey.
     await (requestChallenge sk w publicKey ''authenticate'') (\<lambda>cr.
     await (sync (member cr ''challenge'')) (\<lambda>challenge.
     await (signChallenge sk w challenge) (\<lambda>sr.
     await (sync (member sr ''signature'')) (\<lambda>signature.
     await (httpPost sk w ''/api/v1/seedkey/verify''
              (JObj [(''challengeId'', get_prop cr ''challengeId''), (''challenge'', challenge),
                     (''signature'', signature), (''publicKey'', publicKey)]) []) (\<lambda>result.
     await (sync (member result ''user'')) (\<lambda>user.
     await (sync (member user ''id'')) (\<lambda>uid.
     sync (Inr (with_action result ''login'')))))))))))"

text \<open>
  \<^verbatim>\<open>
  async auth(opts?) {
    try { return await this.authenticate(); }
    catch (error) {
      if (error instanceof SeedKeyError && error.code === ERROR_CODES.USER_NOT_FOUND) {
        return await this.register(opts);
      }
      throw error;
    }
  }
  \<close>
\<close>

definition is_user_not_found :: "error \<Rightarrow> bool" where
  "is_user_not_found e =
     (case e of
        SeedKeyError n c m h d \<Rightarrow> c = JStr USER_NOT_FOUND
      | _ \<Rightarrow> False)"

definition auth :: "SeedKey \<Rightarrow> world \<Rightarrow> json \<Rightarrow> json flow" where
  "auth sk w opts tr =
     (case authenticate sk w tr of
        (Inr result, tr') \<Rightarrow> (Inr result, tr')
      | (Inl e, tr') \<Rightarrow>
          if is_user_not_found e then register sk w opts tr' else (Inl e, tr'))"


text \<open>The labels of the \<^verbatim>\<open>log.group\<close> calls of a history: which flows were entered, in order.\<close>

definition log_groups :: "call list \<Rightarrow> string list" where
  "log_groups tr = concat (map (\<lambda>c. case c of LogGroup l \<Rightarrow> [l] | _ \<Rightarrow> []) tr)"

subsection \<open>Invariant of the transport\<close>

text \<open>
  Every table entry owns an armed timer that carries the entry's request identifier and
  promise; armed timers belong to different promises, none of them settled yet; no promise
  occurs twice in the settlement log.
\<close>

definition transport_inv :: "SeedKey \<Rightarrow> bool" where
  "transport_inv s \<longleftrightarrow>
     distinct (map fst (pendingRequests s))
   \<and> (\<forall>rid pe. map_of (pendingRequests s) rid = Some pe \<longrightarrow>
        (\<exists>tm. map_of (timers s) (timeoutId pe) = Some tm
              \<and> tm_requestId tm = rid \<and> tm_promise tm = promise pe))
   \<and> (\<forall>t1 t2 tm1 tm2. map_of (timers s) t1 = Some tm1 \<and> map_of (timers s) t2 = Some tm2
        \<and> tm_promise tm1 = tm_promise tm2 \<longrightarrow> t1 = t2)
   \<and> (\<forall>t tm. map_of (timers s) t = Some tm \<longrightarrow>
        tm_promise tm \<notin> fst ` set (settled s) \<and> tm_promise tm < nextPromise s \<and> t < nextTimer s)
   \<and> distinct (map fst (settled s))
   \<and> (\<forall>p \<in> fst ` set (settled s). p < nextPromise s)"

section \<open>Concrete surroundings for examples\<close>

text \<open>A backend that answers every request with status 500 and the body \<^verbatim>\<open>{}\<close>.\<close>

definition empty_500 :: response where
  "empty_500 = \<lparr>ok = False, status = 500, json_result = Inr (JObj [])\<rparr>"

definition fetch_empty_500 :: fetch_fn where
  "fetch_empty_500 url init = Inr empty_500"

definition example_options :: SeedKeyOptions where
  "example_options = \<lparr>opt_backendUrl = ''https://api.example.com'', opt_timeout = None, opt_debug = None\<rparr>"

definition other_options :: SeedKeyOptions where
  "other_options = \<lparr>opt_backendUrl = ''https://other.com'', opt_timeout = Some 5000, opt_debug = None\<rparr>"

text \<open>A page at \<^verbatim>\<open>https://site.example\<close>, two requests, and the custodian's answer to the first.\<close>

definition send_1 :: event where
  "send_1 = Send get_public_key (JObj [(''domain'', JStr ''site.example'')]) None ''req_1'' ''https://site.example''"

definition send_2 :: event where
  "send_2 = Send sign_message (JObj [(''message'', JStr ''hello'')]) (Some 3000) ''req_2'' ''https://site.example''"

definition response_1 :: json where
  "response_1 =
     JObj [(''type'', JStr ''SEEDKEY_RESPONSE''), (''version'', JStr ''0.0.1''),
           (''requestId'', JStr ''req_1''), (''success'', JBool True),
           (''result'', JObj [(''publicKey'', JStr ''k1'')])]"

definition fresh :: SeedKey where
  "fresh = new_SeedKey example_options"

definition two_pending :: SeedKey where
  "two_pending = run [send_1, send_2] fresh"

text \<open>
  A custodian that answers every request, and two backends at \<^verbatim>\<open>https://api.example.com\<close>:
  one does not know the user (\<^verbatim>\<open>verify\<close> answers 404 with \<^verbatim>\<open>USER_NOT_FOUND\<close>, \<^verbatim>\<open>register\<close>
  succeeds and reports the action \<^verbatim>\<open>login\<close>), the other knows the user (\<^verbatim>\<open>verify\<close> succeeds
  and reports the action \<^verbatim>\<open>register\<close>).
\<close>

definition example_extension :: "call list \<Rightarrow> SeedKeyAction \<Rightarrow> json \<Rightarrow> int \<Rightarrow> error + json" where
  "example_extension tr a p t =
     (case a of
        check_available \<Rightarrow> Inr (JObj [(''available'', JBool True)])
      | is_initialized \<Rightarrow> Inr (JObj [(''initialized'', JBool False)])
      | get_public_key \<Rightarrow> Inr (JObj [(''publicKey'', JStr ''k1''), (''domain'', JStr ''site.example'')])
      | sign_challenge \<Rightarrow> Inr (JObj [(''signature'', JStr ''s1''), (''publicKey'', JStr ''k1'')])
      | sign_message \<Rightarrow> Inl timeout_error)"

definition example_challenge :: response where
  "example_challenge =
     \<lparr>ok = True, status = 200,
      json_result = Inr (JObj [(''challenge'', JObj [(''nonce'', JStr ''n1''), (''domain'', JStr ''site.example'')]),
                              (''challengeId'', JStr ''c1'')])\<rparr>"

definition example_auth_result :: "string \<Rightarrow> response" where
  "example_auth_result a =
     \<lparr>ok = True, status = 200,
      json_result = Inr (JObj [(''success'', JBool True), (''action'', JStr a),
                              (''user'', JObj [(''id'', JStr ''u1'')]),
                              (''token'', JObj [(''accessToken'', JStr ''at'')])])\<rparr>"

definition example_not_found :: response where
  "example_not_found =
     \<lparr>ok = False, status = 404,
      json_result = Inr (JObj [(''error'', JStr ''USER_NOT_FOUND''), (''message'', JStr ''User not found'')])\<rparr>"

definition new_user_fetch :: "call list \<Rightarrow> string \<Rightarrow> request_init \<Rightarrow> error + response" where
  "new_user_fetch tr url init =
     (if url = ''https://api.example.com/api/v1/seedkey/challenge'' then Inr example_challenge
      else if url = ''https://api.example.com/api/v1/seedkey/verify'' then Inr example_not_found
      else if url = ''https://api.example.com/api/v1/seedkey/register''
      then Inr (example_auth_result ''login'')
      else Inl (JsError ''TypeError'' ''Failed to fetch''))"

definition known_user_fetch :: "call list \<Rightarrow> string \<Rightarrow> request_init \<Rightarrow> error + response" where
  "known_user_fetch tr url init =
     (if url = ''https://api.example.com/api/v1/seedkey/challenge'' then Inr example_challenge
      else if url = ''https://api.example.com/api/v1/seedkey/verify''
      then Inr (example_auth_result ''register'')
      else Inl (JsError ''TypeError'' ''Failed to fetch''))"

definition new_user_world :: world where
  "new_user_world =
     \<lparr>extension = example_extension, fetch = new_user_fetch,
      hostname = ''site.example'', userAgent = ''Mozilla/5.0 (Windows NT 10.0) Chrome/120.0''\<rparr>"

definition known_user_world :: world where
  "known_user_world =
     \<lparr>extension = example_extension, fetch = known_user_fetch,
      hostname = ''site.example'', userAgent = ''Mozilla/5.0 (Windows NT 10.0) Chrome/120.0''\<rparr>"

text \<open>
  A backend whose registration endpoint answers with another user, \<^verbatim>\<open>u2\<close>, and a custodian
  that is installed but answers nothing else.
\<close>

definition second_user_result :: response where
  "second_user_result =
     \<lparr>ok = True, status = 200,
      json_result = Inr (JObj [(''success'', JBool True), (''action'', JStr ''login''),
                              (''user'', JObj [(''id'', JStr ''u2'')]),
                              (''token'', JObj [(''accessToken'', JStr ''at2'')])])\<rparr>"

definition second_user_fetch :: "call list \<Rightarrow> string \<Rightarrow> request_init \<Rightarrow> error + response" where
  "second_user_fetch tr url init =
     (if url = ''https://api.example.com/api/v1/seedkey/challenge'' then Inr example_challenge
      else if url = ''https://api.example.com/api/v1/seedkey/register'' then Inr second_user_result
      else Inl (JsError ''TypeError'' ''Failed to fetch''))"

definition second_user_world :: world where
  "second_user_world =
     \<lparr>extension = example_extension, fetch = second_user_fetch,
      hostname = ''site.example'', userAgent = ''Mozilla/5.0 (Windows NT 10.0) Chrome/120.0''\<rparr>"

definition installed_only_extension :: "call list \<Rightarrow> SeedKeyAction \<Rightarrow> json \<Rightarrow> int \<Rightarrow> error + json" where
  "installed_only_extension tr a p t =
     (case a of
        check_available \<Rightarrow> Inr (JObj [(''available'', JBool True)])
      | _ \<Rightarrow> Inl timeout_error)"

definition installed_only_world :: world where
  "installed_only_world =
     \<lparr>extension = installed_only_extension, fetch = new_user_fetch,
      hostname = ''site.example'', userAgent = ''Mozilla/5.0 (Windows NT 10.0) Chrome/120.0''\<rparr>"

text \<open>A custodian that never answers: every request ends by its timer.\<close>

definition silent_world :: world where
  "silent_world =
     \<lparr>extension = (\<lambda>tr a p t. Inl timeout_error), fetch = new_user_fetch,
      hostname = ''site.example'', userAgent = ''Mozilla/5.0 (Windows NT 10.0) Chrome/120.0''\<rparr>"

section \<open>Properties of the session ledger\<close>

subsection \<open>Decimal digits are read back\<close>

lemma below_ten: "d < 10 \<Longrightarrow> d \<in> {0, 1, 2, 3, 4, 5, 6, 7, 8, 9::nat}"
  by auto

lemma is_digit_digit_char: "d < 10 \<Longrightarrow> is_digit (digit_char d)"
  using below_ten [of d] by (auto simp: is_digit_def digit_char_def)

lemma digit_val_digit_char: "d < 10 \<Longrightarrow> digit_val (digit_char d) = d"
  using below_ten [of d] by (auto simp: digit_val_def digit_char_def)

lemma parse_digits_append:
  "parse_digits (nat_digits n @ rest) acc =
     parse_digits rest (Some ((case acc of None \<Rightarrow> 0 | Some a \<Rightarrow> a) * 10 ^ length (nat_digits n) + n))"
proof (induction n arbitrary: rest acc rule: nat_digits.induct)
  case (1 n)
  show ?case
  proof (cases "n < 10")
    case True
    then show ?thesis
      by (subst nat_digits.simps, subst (2) nat_digits.simps)
         (simp add: is_digit_digit_char digit_val_digit_char mult.commute)
  next
    case False
    have "parse_digits (nat_digits n @ rest) acc
        = parse_digits (nat_digits (n div 10) @ (digit_char (n mod 10) # rest)) acc"
      using False by (subst nat_digits.simps) simp
    also have "\<dots> = parse_digits (digit_char (n mod 10) # rest)
        (Some ((case acc of None \<Rightarrow> 0 | Some a \<Rightarrow> a) * 10 ^ length (nat_digits (n div 10)) + n div 10))"
      using "1.IH" [OF False] by simp
    also have "\<dots> = parse_digits rest (Some ((case acc of None \<Rightarrow> 0 | Some a \<Rightarrow> a) * 10 ^ length (nat_digits n) + n))"
      using False
      by (subst (2) nat_digits.simps) (simp add: is_digit_digit_char digit_val_digit_char algebra_simps)
    finally show ?thesis .
  qed
qed

lemma parse_digits_nat_digits: "parse_digits (nat_digits n) None = Some n"
  using parse_digits_append [of n "[]" None] by simp

lemma nat_digits_nonempty: "nat_digits n \<noteq> []"
  by (subst nat_digits.simps) simp

lemma hd_nat_digits_digit: "is_digit (hd (nat_digits n))"
proof (induction n rule: nat_digits.induct)
  case (1 n)
  show ?case
  proof (cases "n < 10")
    case True
    then show ?thesis by (subst nat_digits.simps) (simp add: is_digit_digit_char)
  next
    case False
    then show ?thesis using "1.IH" [OF False] nat_digits_nonempty [of "n div 10"]
      by (subst nat_digits.simps) simp
  qed
qed

lemma is_digit_not_space: "is_digit c \<Longrightarrow> \<not> is_space c \<and> c \<noteq> CHR ''-'' \<and> c \<noteq> CHR ''+''"
  by (auto simp: is_digit_def is_space_def)

lemma parseInt_nat_digits: "parseInt (nat_digits n) = Some (int n)"
proof -
  obtain c cs where eq: "nat_digits n = c # cs"
    using nat_digits_nonempty [of n] by (cases "nat_digits n") auto
  have d: "is_digit c" using hd_nat_digits_digit [of n] eq by simp
  have "parse_digits (c # cs) None = Some n"
    using parse_digits_nat_digits [of n] eq by simp
  then show ?thesis
    using is_digit_not_space [OF d] unfolding parseInt_def eq by simp
qed

lemma parseInt_toString: "parseInt (toString i) = Some i"
proof (cases "i < 0")
  case True
  have "\<not> is_space CHR ''-''" by (simp add: is_space_def)
  then show ?thesis using True
    by (simp add: toString_def parseInt_def parse_digits_nat_digits)
next
  case False
  then show ?thesis by (simp add: toString_def parseInt_nat_digits)
qed

lemma toString_nonempty: "toString i \<noteq> []"
  by (simp add: toString_def nat_digits_nonempty)

lemma parseInt_Some_nonempty: "parseInt s = Some e \<Longrightarrow> s \<noteq> []"
  by (auto simp: parseInt_def)

lemma isTokenExpired_parsed:
  "st EXPIRES_AT = Some s \<Longrightarrow> parseInt s = Some e \<Longrightarrow> isTokenExpired st now = (now > e - 300000)"
  using parseInt_Some_nonempty [of s e] by (simp add: isTokenExpired_def bufferMs_def)

lemma nat_digits_small: "n < 10 \<Longrightarrow> nat_digits n = [digit_char n]"
  by (subst nat_digits.simps) simp

lemma nat_digits_step: "10 \<le> n \<Longrightarrow> nat_digits n = nat_digits (n div 10) @ [digit_char (n mod 10)]"
  by (subst nat_digits.simps) simp

lemmas eval_number = toString_def nat_digits_step nat_digits_small digit_char_def
  parseInt_def is_space_def is_digit_def digit_val_def

text \<open>
  C4. \<^verbatim>\<open>isTokenExpired()\<close> is true when no expiry is stored. When the stored string reads
  as the integer \<open>e\<close>, it is true exactly when \<open>now > e - 5 min\<close>. In particular, at
  time \<open>now\<close> a stored expiry of \<open>now + 4 min\<close> (written as \<^verbatim>\<open>saveTokens\<close> writes it, by
  \<^verbatim>\<open>toString\<close>) is expired and one of \<open>now + 5 min + 1 ms\<close> is not.
\<close>

theorem isTokenExpired_buffer:
  "(st EXPIRES_AT = None \<longrightarrow> isTokenExpired st now) \<and>
   (\<forall>s e. st EXPIRES_AT = Some s \<and> parseInt s = Some e \<longrightarrow>
      isTokenExpired st now = (now > e - 5 * 60 * 1000)) \<and>
   (st EXPIRES_AT = Some (toString (now + 4 * 60 * 1000)) \<longrightarrow> isTokenExpired st now) \<and>
   (st EXPIRES_AT = Some (toString (now + 5 * 60 * 1000 + 1)) \<longrightarrow> \<not> isTokenExpired st now)"
proof (intro conjI impI allI)
  assume "st EXPIRES_AT = None"
  then show "isTokenExpired st now" by (simp add: isTokenExpired_def)
next
  fix s e assume "st EXPIRES_AT = Some s \<and> parseInt s = Some e"
  then show "isTokenExpired st now = (now > e - 5 * 60 * 1000)"
    using isTokenExpired_parsed [of st s e now] by simp
next
  assume "st EXPIRES_AT = Some (toString (now + 4 * 60 * 1000))"
  then show "isTokenExpired st now"
    using isTokenExpired_parsed [OF _ parseInt_toString, of st "now + 4 * 60 * 1000" now] by simp
next
  assume "st EXPIRES_AT = Some (toString (now + 5 * 60 * 1000 + 1))"
  then show "\<not> isTokenExpired st now"
    using isTokenExpired_parsed [OF _ parseInt_toString, of st "now + 5 * 60 * 1000 + 1" now] by simp
qed

theorem isTokenExpired_buffer_witness:
  "isTokenExpired Map.empty 1700000000000
   \<and> toString (1700000000000 + 4 * 60 * 1000) = ''1700000240000''
   \<and> saveTokens \<lparr>accessToken = ''a'', refreshToken = ''r'', expiresIn = 240\<rparr> (Some ''u'')
        1700000000000 Map.empty EXPIRES_AT = Some ''1700000240000''
   \<and> isTokenExpired
        (saveTokens \<lparr>accessToken = ''a'', refreshToken = ''r'', expiresIn = 240\<rparr> (Some ''u'')
           1700000000000 Map.empty) 1700000000000
   \<and> parseInt ''1700000240000'' = Some 1700000240000
   \<and> toString (1700000000000 + 5 * 60 * 1000 + 1) = ''1700000300001''
   \<and> \<not> isTokenExpired [EXPIRES_AT \<mapsto> ''1700000300001''] 1700000000000"
proof -
  let ?saved = "saveTokens \<lparr>accessToken = ''a'', refreshToken = ''r'', expiresIn = 240\<rparr> (Some ''u'')
        1700000000000 Map.empty"
  have t1: "toString (1700000000000 + 4 * 60 * 1000) = ''1700000240000''"
    by (simp add: eval_number)
  have t2: "toString (1700000000000 + 5 * 60 * 1000 + 1) = ''1700000300001''"
    by (simp add: eval_number)
  have p: "parseInt ''1700000240000'' = Some 1700000240000"
    by (simp add: eval_number)
  have s: "?saved EXPIRES_AT = Some ''1700000240000''"
    using t1 by (simp add: saveTokens_def EXPIRES_AT_def USER_ID_def)
  have a: "isTokenExpired Map.empty 1700000000000"
    using isTokenExpired_buffer [of Map.empty 1700000000000] by simp
  have b: "isTokenExpired ?saved 1700000000000"
    using isTokenExpired_buffer [of ?saved 1700000000000] s t1 by simp
  have c: "\<not> isTokenExpired [EXPIRES_AT \<mapsto> ''1700000300001''] 1700000000000"
    using isTokenExpired_buffer [of "[EXPIRES_AT \<mapsto> ''1700000300001'']" 1700000000000] t2 by simp
  show ?thesis by (intro conjI a t1 s b p t2 c)
qed

section \<open>Properties of the remote verification client\<close>

lemma api_failure_body:
  "json_result r = Inr err \<Longrightarrow> \<not> nullish err \<Longrightarrow>
   api_failure r c m =
     new_SeedKeyError (js_or (get_prop err ''error'') (JStr c))
       (js_or (get_prop err ''message'') (JStr m)) JUndefined JUndefined"
  by (simp add: api_failure_def member_def)

lemma ApiClient_fetch_const: "ApiClient_fetch b (\<lambda>url init. Inr r) p i = Inr r"
  by (simp add: ApiClient_fetch_def)

text \<open>
  C7, as stated, fails for \<^verbatim>\<open>refreshToken\<close>: on a non-success response with the body
  \<^verbatim>\<open>{}\<close> the code that is absent falls back to \<^verbatim>\<open>INVALID_TOKEN\<close>, not to the generic
  server-error code.
\<close>

theorem refresh_fallback_counterexample:
  "ApiClient_refreshToken ''https://api.example.com'' fetch_empty_500 ''rt'' =
     Inl (SeedKeyError ''SeedKeyError'' (JStr ''INVALID_TOKEN'') ''Token refresh failed'' JUndefined JUndefined)
   \<and> JStr ''INVALID_TOKEN'' \<noteq> JStr SERVER_ERROR"
  by (simp add: ApiClient_refreshToken_def ApiClient_fetch_def fetch_empty_500_def empty_500_def
      api_failure_def member_def js_or_def new_SeedKeyError_def error_message_def
      INVALID_TOKEN_def SERVER_ERROR_def)

text \<open>
  C7, amended. On a non-success response whose body parses to a value \<open>err\<close> other than
  \<^verbatim>\<open>null\<close>, each operation rejects with a \<^verbatim>\<open>SeedKeyError\<close> whose code is the embedded
  \<^verbatim>\<open>error\<close> or else the operation's fallback (\<^verbatim>\<open>SERVER_ERROR\<close> for \<^verbatim>\<open>getUser\<close> and
  \<^verbatim>\<open>logout\<close>, \<^verbatim>\<open>INVALID_TOKEN\<close> for \<^verbatim>\<open>refreshToken\<close>), and whose message is the
  embedded \<^verbatim>\<open>message\<close> or else the operation's default. With the empty object as body,
  \<^verbatim>\<open>getUser\<close> rejects with \<^verbatim>\<open>SERVER_ERROR\<close> and \<^verbatim>\<open>Failed to get user\<close>.
\<close>

theorem api_error_fallbacks:
  assumes "\<not> ok r" and "json_result r = Inr err" and "\<not> nullish err"
  shows "ApiClient_getUser b (\<lambda>url init. Inr r) t =
           Inl (new_SeedKeyError (js_or (get_prop err ''error'') (JStr SERVER_ERROR))
                  (js_or (get_prop err ''message'') (JStr ''Failed to get user'')) JUndefined JUndefined)
       \<and> ApiClient_logout b (\<lambda>url init. Inr r) t =
           Inl (new_SeedKeyError (js_or (get_prop err ''error'') (JStr SERVER_ERROR))
                  (js_or (get_prop err ''message'') (JStr ''Logout failed'')) JUndefined JUndefined)
       \<and> ApiClient_refreshToken b (\<lambda>url init. Inr r) t =
           Inl (new_SeedKeyError (js_or (get_prop err ''error'') (JStr INVALID_TOKEN))
                  (js_or (get_prop err ''message'') (JStr ''Token refresh failed'')) JUndefined JUndefined)
       \<and> (get_prop err ''error'' = JUndefined \<longrightarrow> js_or (get_prop err ''error'') (JStr c) = JStr c)
       \<and> (get_prop err ''message'' = JUndefined \<longrightarrow> js_or (get_prop err ''message'') (JStr m) = JStr m)
       \<and> (err = JObj [] \<longrightarrow>
           ApiClient_getUser b (\<lambda>url init. Inr r) t =
             Inl (SeedKeyError ''SeedKeyError'' (JStr ''SERVER_ERROR'') ''Failed to get user'' JUndefined JUndefined))"
  using assms
  by (simp add: ApiClient_getUser_def ApiClient_logout_def ApiClient_refreshToken_def
      ApiClient_fetch_const api_failure_body js_or_def new_SeedKeyError_def error_message_def
      SERVER_ERROR_def)

theorem api_error_fallbacks_witness:
  "\<not> ok empty_500 \<and> json_result empty_500 = Inr (JObj []) \<and> \<not> nullish (JObj []) \<and>
   ApiClient_getUser ''https://api.example.com'' (\<lambda>url init. Inr empty_500) ''token'' =
     Inl (SeedKeyError ''SeedKeyError'' (JStr ''SERVER_ERROR'') ''Failed to get user'' JUndefined JUndefined)"
proof -
  have a: "\<not> ok empty_500" by (simp add: empty_500_def)
  have b: "json_result empty_500 = Inr (JObj [])" by (simp add: empty_500_def)
  have c: "\<not> nullish (JObj [])" by simp
  show ?thesis
    using a b c api_error_fallbacks [OF a b c, where b = "''https://api.example.com''" and t = "''token''" and c = "[]" and m = "[]"]
    by (simp add: js_or_def new_SeedKeyError_def error_message_def SERVER_ERROR_def)
qed

section \<open>Properties of the correlated transport\<close>

subsection \<open>Teardown\<close>

lemma fold_cancel_settled:
  "settled (fold cancel es s) = settled s @ map (\<lambda>e. (promise (snd e), Reject destroyed_error)) es"
  by (induction es arbitrary: s) (simp_all add: cancel_def)

lemma fold_cancel_timers:
  "map_of (timers (fold cancel es s)) t =
     (if t \<in> (\<lambda>e. timeoutId (snd e)) ` set es then None else map_of (timers s) t)"
  by (induction es arbitrary: s) (auto simp: cancel_def delete_conv')

lemma fold_cancel_rest:
  "pendingRequests (fold cancel es s) = pendingRequests s \<and>
   listening (fold cancel es s) = listening s \<and>
   dispatched (fold cancel es s) = dispatched s \<and>
   nextPromise (fold cancel es s) = nextPromise s \<and>
   nextTimer (fold cancel es s) = nextTimer s \<and>
   backendUrl (fold cancel es s) = backendUrl s \<and>
   timeout (fold cancel es s) = timeout s"
  by (induction es arbitrary: s) (simp_all add: cancel_def)

lemma destroy_idem: "destroy (destroy s) = destroy s"
  by (simp add: destroy_def fold_cancel_rest)

lemma destroyed_error_eq:
  "destroyed_error = SeedKeyError ''SeedKeyError'' (JStr ''TIMEOUT'') ''SDK destroyed'' JUndefined JUndefined"
  by (simp add: destroyed_error_def new_SeedKeyError_def error_message_def TIMEOUT_def)

lemmas eval_transport =
  run_def sendToExtension_def handleResponse_def timer_fires_def destroy_def cancel_def
  lookup_pending_def response_settlement_def effective_timeout_def new_SeedKey_def
  fresh_def two_pending_def send_1_def send_2_def response_1_def example_options_def

text \<open>
  C5. \<^verbatim>\<open>destroy()\<close> rejects, in one step, the promise of every entry of the in-flight
  table with the error \<^verbatim>\<open>SeedKeyError(TIMEOUT, 'SDK destroyed')\<close>, clears the timer of
  every entry, empties the table and detaches the response listener; a second
  \<^verbatim>\<open>destroy()\<close> changes nothing and settles nothing.
\<close>

theorem destroy_rejects_all_pending:
  "settled (destroy s) =
     settled s @ map (\<lambda>e. (promise (snd e), Reject destroyed_error)) (pendingRequests s)
   \<and> destroyed_error =
       SeedKeyError ''SeedKeyError'' (JStr ''TIMEOUT'') ''SDK destroyed'' JUndefined JUndefined
   \<and> (\<forall>e \<in> set (pendingRequests s). map_of (timers (destroy s)) (timeoutId (snd e)) = None)
   \<and> pendingRequests (destroy s) = []
   \<and> \<not> listening (destroy s)
   \<and> destroy (destroy s) = destroy s
   \<and> settled (destroy (destroy s)) = settled (destroy s)"
  by (simp add: destroy_idem destroyed_error_eq [symmetric])
     (simp add: destroy_def fold_cancel_settled fold_cancel_timers fold_cancel_rest)

theorem destroy_rejects_all_pending_witness:
  "pendingRequests two_pending =
     [(''req_1'', \<lparr>promise = 0, timeoutId = 0\<rparr>), (''req_2'', \<lparr>promise = 1, timeoutId = 1\<rparr>)]
   \<and> settled (destroy two_pending) = [(0, Reject destroyed_error), (1, Reject destroyed_error)]
   \<and> map_of (timers (destroy two_pending)) 0 = None
   \<and> map_of (timers (destroy two_pending)) 1 = None
   \<and> pendingRequests (destroy two_pending) = []"
proof -
  have p: "pendingRequests two_pending =
     [(''req_1'', \<lparr>promise = 0, timeoutId = 0\<rparr>), (''req_2'', \<lparr>promise = 1, timeoutId = 1\<rparr>)]"
    by (simp add: eval_transport)
  have s: "settled two_pending = []"
    by (simp add: eval_transport)
  show ?thesis
    using destroy_rejects_all_pending [of two_pending] by (simp add: p s)
qed

subsection \<open>The invariant holds in every reachable state\<close>

lemma inv_new: "transport_inv (new_SeedKey opts)"
  by (simp add: transport_inv_def new_SeedKey_def)

lemma invI:
  assumes "distinct (map fst (pendingRequests s))"
    and "\<And>rid pe. map_of (pendingRequests s) rid = Some pe \<Longrightarrow>
           \<exists>tm. map_of (timers s) (timeoutId pe) = Some tm
              \<and> tm_requestId tm = rid \<and> tm_promise tm = promise pe"
    and "\<And>t1 t2 tm1 tm2. map_of (timers s) t1 = Some tm1 \<Longrightarrow> map_of (timers s) t2 = Some tm2
           \<Longrightarrow> tm_promise tm1 = tm_promise tm2 \<Longrightarrow> t1 = t2"
    and "\<And>t tm. map_of (timers s) t = Some tm \<Longrightarrow>
           tm_promise tm \<notin> fst ` set (settled s) \<and> tm_promise tm < nextPromise s \<and> t < nextTimer s"
    and "distinct (map fst (settled s))"
    and "\<And>p. p \<in> fst ` set (settled s) \<Longrightarrow> p < nextPromise s"
  shows "transport_inv s"
  unfolding transport_inv_def
proof (intro conjI allI impI ballI)
  show "distinct (map fst (pendingRequests s))" by (rule assms(1))
next
  fix rid pe assume "map_of (pendingRequests s) rid = Some pe"
  then show "\<exists>tm. map_of (timers s) (timeoutId pe) = Some tm
              \<and> tm_requestId tm = rid \<and> tm_promise tm = promise pe" by (rule assms(2))
next
  fix t1 t2 tm1 tm2
  assume "map_of (timers s) t1 = Some tm1 \<and> map_of (timers s) t2 = Some tm2
        \<and> tm_promise tm1 = tm_promise tm2"
  then show "t1 = t2" using assms(3) [of t1 tm1 t2 tm2] by simp
next
  fix t tm assume h: "map_of (timers s) t = Some tm"
  show "tm_promise tm \<notin> fst ` set (settled s)" using assms(4) [OF h] by simp
  show "tm_promise tm < nextPromise s" using assms(4) [OF h] by simp
  show "t < nextTimer s" using assms(4) [OF h] by simp
next
  show "distinct (map fst (settled s))" by (rule assms(5))
next
  fix p assume "p \<in> fst ` set (settled s)"
  then show "p < nextPromise s" by (rule assms(6))
qed

lemma inv_keys: "transport_inv s \<Longrightarrow> distinct (map fst (pendingRequests s))"
  by (simp add: transport_inv_def)

lemma inv_pending:
  assumes "transport_inv s" and "map_of (pendingRequests s) rid = Some pe"
  shows "\<exists>tm. map_of (timers s) (timeoutId pe) = Some tm \<and> tm_requestId tm = rid \<and> tm_promise tm = promise pe"
proof -
  have "\<forall>rid pe. map_of (pendingRequests s) rid = Some pe \<longrightarrow>
        (\<exists>tm. map_of (timers s) (timeoutId pe) = Some tm
              \<and> tm_requestId tm = rid \<and> tm_promise tm = promise pe)"
    using assms(1) unfolding transport_inv_def by (elim conjE)
  then show ?thesis using assms(2) by (elim allE impE)
qed

lemma inv_inj:
  assumes "transport_inv s" and "map_of (timers s) t1 = Some tm1" and "map_of (timers s) t2 = Some tm2"
    and "tm_promise tm1 = tm_promise tm2"
  shows "t1 = t2"
proof -
  have "\<forall>t1 t2 tm1 tm2. map_of (timers s) t1 = Some tm1 \<and> map_of (timers s) t2 = Some tm2
        \<and> tm_promise tm1 = tm_promise tm2 \<longrightarrow> t1 = t2"
    using assms(1) unfolding transport_inv_def by (elim conjE)
  then have "map_of (timers s) t1 = Some tm1 \<and> map_of (timers s) t2 = Some tm2
        \<and> tm_promise tm1 = tm_promise tm2 \<longrightarrow> t1 = t2"
    by (elim allE)
  then show ?thesis using assms(2-4) by simp
qed

lemma inv_timer:
  assumes "transport_inv s" and "map_of (timers s) t = Some tm"
  shows "tm_promise tm \<notin> fst ` set (settled s) \<and> tm_promise tm < nextPromise s \<and> t < nextTimer s"
proof -
  have "\<forall>t tm. map_of (timers s) t = Some tm \<longrightarrow>
        tm_promise tm \<notin> fst ` set (settled s) \<and> tm_promise tm < nextPromise s \<and> t < nextTimer s"
    using assms(1) unfolding transport_inv_def by (elim conjE)
  then show ?thesis using assms(2) by (elim allE impE)
qed

lemma inv_settled: "transport_inv s \<Longrightarrow> distinct (map fst (settled s))"
  by (simp add: transport_inv_def)

lemma inv_bound:
  assumes "transport_inv s" and "p \<in> fst ` set (settled s)"
  shows "p < nextPromise s"
proof -
  have "\<forall>p \<in> fst ` set (settled s). p < nextPromise s"
    using assms(1) unfolding transport_inv_def by (elim conjE)
  then show ?thesis using assms(2) by (rule bspec)
qed

lemma send_fields:
  "map_of (timers (sendToExtension a p c rid orig s)) =
     (map_of (timers s))(nextTimer s \<mapsto>
        \<lparr>tm_requestId = rid, tm_promise = nextPromise s, tm_delay = effective_timeout s c\<rparr>)"
  "map_of (pendingRequests (sendToExtension a p c rid orig s)) =
     (map_of (pendingRequests s))(rid \<mapsto> \<lparr>promise = nextPromise s, timeoutId = nextTimer s\<rparr>)"
  "settled (sendToExtension a p c rid orig s) = settled s"
  "nextPromise (sendToExtension a p c rid orig s) = Suc (nextPromise s)"
  "nextTimer (sendToExtension a p c rid orig s) = Suc (nextTimer s)"
  "listening (sendToExtension a p c rid orig s) = listening s"
  by (simp_all add: sendToExtension_def update_conv')

lemma inv_send:
  assumes inv: "transport_inv s"
  shows "transport_inv (sendToExtension a p c rid orig s)"
proof (rule invI)
  show "distinct (map fst (pendingRequests (sendToExtension a p c rid orig s)))"
    using inv_keys [OF inv] by (simp add: sendToExtension_def distinct_update)
next
  fix r pe
  assume h: "map_of (pendingRequests (sendToExtension a p c rid orig s)) r = Some pe"
  show "\<exists>tm. map_of (timers (sendToExtension a p c rid orig s)) (timeoutId pe) = Some tm
              \<and> tm_requestId tm = r \<and> tm_promise tm = promise pe"
  proof (cases "r = rid")
    case True
    then show ?thesis using h by (auto simp: send_fields)
  next
    case False
    then have old: "map_of (pendingRequests s) r = Some pe" using h by (simp add: send_fields)
    then obtain tm where tm: "map_of (timers s) (timeoutId pe) = Some tm"
      "tm_requestId tm = r" "tm_promise tm = promise pe"
      using inv_pending [OF inv] by blast
    have "timeoutId pe \<noteq> nextTimer s" using inv_timer [OF inv tm(1)] by auto
    then show ?thesis using tm by (simp add: send_fields)
  qed
next
  fix t1 t2 tm1 tm2
  assume h: "map_of (timers (sendToExtension a p c rid orig s)) t1 = Some tm1"
    "map_of (timers (sendToExtension a p c rid orig s)) t2 = Some tm2"
    "tm_promise tm1 = tm_promise tm2"
  have old: "map_of (timers s) t = Some tm \<and> tm_promise tm \<noteq> nextPromise s"
    if "t \<noteq> nextTimer s" "map_of (timers (sendToExtension a p c rid orig s)) t = Some tm" for t tm
  proof -
    have m: "map_of (timers s) t = Some tm" using that by (simp add: send_fields)
    have "tm_promise tm < nextPromise s" using inv_timer [OF inv m] by simp
    then show ?thesis using m by simp
  qed
  have new: "tm_promise tm = nextPromise s"
    if "map_of (timers (sendToExtension a p c rid orig s)) (nextTimer s) = Some tm" for tm
    using that by (auto simp: send_fields)
  show "t1 = t2"
  proof (cases "t1 = nextTimer s")
    case True
    note e1 = this
    show ?thesis
    proof (cases "t2 = nextTimer s")
      case True
      then show ?thesis using e1 by simp
    next
      case False
      have "tm_promise tm1 = nextPromise s" using new h(1) e1 by simp
      moreover have "tm_promise tm2 \<noteq> nextPromise s" using old [OF False h(2)] by simp
      ultimately show ?thesis using h(3) by simp
    qed
  next
    case False
    note f1 = this
    show ?thesis
    proof (cases "t2 = nextTimer s")
      case True
      have "tm_promise tm2 = nextPromise s" using new h(2) True by simp
      moreover have "tm_promise tm1 \<noteq> nextPromise s" using old [OF f1 h(1)] by simp
      ultimately show ?thesis using h(3) by simp
    next
      case False
      have a: "map_of (timers s) t1 = Some tm1" using old [OF f1 h(1)] by simp
      have b: "map_of (timers s) t2 = Some tm2" using old [OF False h(2)] by simp
      show ?thesis by (rule inv_inj [OF inv a b h(3)])
    qed
  qed
next
  fix t tm
  assume h: "map_of (timers (sendToExtension a p c rid orig s)) t = Some tm"
  have fresh: "nextPromise s \<notin> fst ` set (settled s)"
    using inv_bound [OF inv, of "nextPromise s"] by auto
  show "tm_promise tm \<notin> fst ` set (settled (sendToExtension a p c rid orig s))
      \<and> tm_promise tm < nextPromise (sendToExtension a p c rid orig s)
      \<and> t < nextTimer (sendToExtension a p c rid orig s)"
  proof (cases "t = nextTimer s")
    case True
    then have "tm_promise tm = nextPromise s" using h by (auto simp: send_fields)
    then show ?thesis using fresh True by (simp add: send_fields)
  next
    case False
    then have m: "map_of (timers s) t = Some tm" using h by (simp add: send_fields)
    have "tm_promise tm \<notin> fst ` set (settled s)" "tm_promise tm < nextPromise s" "t < nextTimer s"
      using inv_timer [OF inv m] by simp_all
    then show ?thesis by (simp add: send_fields)
  qed
next
  show "distinct (map fst (settled (sendToExtension a p c rid orig s)))"
    using inv_settled [OF inv] by (simp add: send_fields)
next
  fix q assume "q \<in> fst ` set (settled (sendToExtension a p c rid orig s))"
  then have "q \<in> fst ` set (settled s)" by (simp add: send_fields)
  then have "q < nextPromise s" by (rule inv_bound [OF inv])
  then show "q < nextPromise (sendToExtension a p c rid orig s)"
    by (simp add: send_fields)
qed

lemma inv_settle:
  assumes inv: "transport_inv s" and tm: "map_of (timers s) t = Some tm"
  shows "transport_inv
           (s\<lparr>timers := AList.delete t (timers s),
              pendingRequests := AList.delete (tm_requestId tm) (pendingRequests s),
              settled := settled s @ [(tm_promise tm, x)]\<rparr>)"
    (is "transport_inv ?s'")
proof (rule invI)
  show "distinct (map fst (pendingRequests ?s'))"
    using inv_keys [OF inv] by (simp add: distinct_delete)
next
  fix r pe
  assume "map_of (pendingRequests ?s') r = Some pe"
  then have r: "r \<noteq> tm_requestId tm" and old: "map_of (pendingRequests s) r = Some pe"
    by (auto simp: delete_conv' split: if_splits)
  obtain tm' where tm': "map_of (timers s) (timeoutId pe) = Some tm'"
    "tm_requestId tm' = r" "tm_promise tm' = promise pe"
    using inv_pending [OF inv old] by (elim exE conjE)
  have "timeoutId pe \<noteq> t"
  proof
    assume "timeoutId pe = t"
    then have "tm' = tm" using tm tm'(1) by simp
    then show False using r tm'(2) by simp
  qed
  then have "map_of (timers ?s') (timeoutId pe) = Some tm'"
    using tm'(1) by (simp add: delete_conv')
  then show "\<exists>tm. map_of (timers ?s') (timeoutId pe) = Some tm
              \<and> tm_requestId tm = r \<and> tm_promise tm = promise pe"
    using tm'(2,3) by simp
next
  fix t1 t2 tm1 tm2
  assume "map_of (timers ?s') t1 = Some tm1" "map_of (timers ?s') t2 = Some tm2"
    and eq: "tm_promise tm1 = tm_promise tm2"
  then have "map_of (timers s) t1 = Some tm1" "map_of (timers s) t2 = Some tm2"
    by (auto simp: delete_conv' split: if_splits)
  then show "t1 = t2" using eq by (rule inv_inj [OF inv])
next
  fix t' tm'
  assume "map_of (timers ?s') t' = Some tm'"
  then have ne: "t' \<noteq> t" and old: "map_of (timers s) t' = Some tm'"
    by (auto simp: delete_conv' split: if_splits)
  have a: "tm_promise tm' \<notin> fst ` set (settled s)" "tm_promise tm' < nextPromise s" "t' < nextTimer s"
    using inv_timer [OF inv old] by simp_all
  have "tm_promise tm' \<noteq> tm_promise tm"
  proof
    assume "tm_promise tm' = tm_promise tm"
    then have "t' = t" by (rule inv_inj [OF inv old tm])
    then show False using ne by simp
  qed
  then show "tm_promise tm' \<notin> fst ` set (settled ?s')
      \<and> tm_promise tm' < nextPromise ?s' \<and> t' < nextTimer ?s'"
    using a by simp
next
  have "tm_promise tm \<notin> fst ` set (settled s)" using inv_timer [OF inv tm] by simp
  then show "distinct (map fst (settled ?s'))" using inv_settled [OF inv] by simp
next
  fix q assume "q \<in> fst ` set (settled ?s')"
  then have "q = tm_promise tm \<or> q \<in> fst ` set (settled s)" by auto
  then have "q < nextPromise s"
    using inv_timer [OF inv tm] inv_bound [OF inv, of q] by auto
  then show "q < nextPromise ?s'" by simp
qed

lemma inv_timer_fires: "transport_inv s \<Longrightarrow> transport_inv (timer_fires t s)"
  by (cases "map_of (timers s) t") (simp_all add: timer_fires_def inv_settle)

lemma lookup_pending_Some:
  "lookup_pending s v = Some (rid, pe) \<Longrightarrow> v = JStr rid \<and> map_of (pendingRequests s) rid = Some pe"
  by (auto simp: lookup_pending_def split: json.splits option.splits)

lemma inv_handleResponse:
  assumes inv: "transport_inv s"
  shows "transport_inv (handleResponse data s)"
proof (cases "\<not> truthy data \<or> get_prop data ''type'' \<noteq> JStr ''SEEDKEY_RESPONSE''")
  case True
  then show ?thesis using inv by (simp add: handleResponse_def)
next
  case False
  note guard = this
  show ?thesis
  proof (cases "lookup_pending s (get_prop data ''requestId'')")
    case None
    then show ?thesis using inv guard by (simp add: handleResponse_def)
  next
    case (Some e)
    obtain rid pe where e: "e = (rid, pe)" by (cases e)
    have old: "map_of (pendingRequests s) rid = Some pe"
      using lookup_pending_Some Some e by simp
    obtain tm where tm: "map_of (timers s) (timeoutId pe) = Some tm"
      "tm_requestId tm = rid" "tm_promise tm = promise pe"
      using inv_pending [OF inv old] by (elim exE conjE)
    have "handleResponse data s =
      s\<lparr>timers := AList.delete (timeoutId pe) (timers s),
        pendingRequests := AList.delete (tm_requestId tm) (pendingRequests s),
        settled := settled s @ [(tm_promise tm, response_settlement data)]\<rparr>"
      using guard Some e tm(2,3) by (simp add: handleResponse_def)
    then show ?thesis using inv_settle [OF inv tm(1)] by simp
  qed
qed

lemma destroy_fields:
  "map_of (timers (destroy s)) t =
     (if t \<in> (\<lambda>e. timeoutId (snd e)) ` set (pendingRequests s) then None else map_of (timers s) t)"
  "settled (destroy s) =
     settled s @ map (\<lambda>e. (promise (snd e), Reject destroyed_error)) (pendingRequests s)"
  "pendingRequests (destroy s) = []"
  "nextPromise (destroy s) = nextPromise s"
  "nextTimer (destroy s) = nextTimer s"
  "listening (destroy s) = False"
  by (simp_all add: destroy_def fold_cancel_settled fold_cancel_timers fold_cancel_rest)

lemma destroy_settled_promises:
  "fst ` set (settled (destroy s)) =
     fst ` set (settled s) \<union> (\<lambda>e. promise (snd e)) ` set (pendingRequests s)"
  by (simp add: destroy_fields image_Un image_image)

lemma entry_lookup:
  "transport_inv s \<Longrightarrow> e \<in> set (pendingRequests s) \<Longrightarrow>
     map_of (pendingRequests s) (fst e) = Some (snd e)"
  using inv_keys [of s] by (cases e) simp

lemma entry_timer:
  assumes inv: "transport_inv s" and e: "e \<in> set (pendingRequests s)"
  shows "\<exists>tm. map_of (timers s) (timeoutId (snd e)) = Some tm
            \<and> tm_requestId tm = fst e \<and> tm_promise tm = promise (snd e)"
  by (rule inv_pending [OF inv entry_lookup [OF inv e]])

lemma entry_promises_inj:
  assumes inv: "transport_inv s"
  shows "inj_on (\<lambda>e. promise (snd e)) (set (pendingRequests s))"
proof (rule inj_onI)
  fix e1 e2
  assume e1: "e1 \<in> set (pendingRequests s)" and e2: "e2 \<in> set (pendingRequests s)"
    and eq: "promise (snd e1) = promise (snd e2)"
  obtain tm1 where tm1: "map_of (timers s) (timeoutId (snd e1)) = Some tm1"
    "tm_requestId tm1 = fst e1" "tm_promise tm1 = promise (snd e1)"
    using entry_timer [OF inv e1] by (elim exE conjE)
  obtain tm2 where tm2: "map_of (timers s) (timeoutId (snd e2)) = Some tm2"
    "tm_requestId tm2 = fst e2" "tm_promise tm2 = promise (snd e2)"
    using entry_timer [OF inv e2] by (elim exE conjE)
  have "tm_promise tm1 = tm_promise tm2" using eq tm1(3) tm2(3) by simp
  then have "timeoutId (snd e1) = timeoutId (snd e2)" by (rule inv_inj [OF inv tm1(1) tm2(1)])
  then have "tm1 = tm2" using tm1(1) tm2(1) by simp
  then have k: "fst e1 = fst e2" using tm1(2) tm2(2) by simp
  have "Some (snd e1) = Some (snd e2)"
    using entry_lookup [OF inv e1] entry_lookup [OF inv e2] k by simp
  then show "e1 = e2" using k by (simp add: prod_eq_iff)
qed

lemma entry_promise_unsettled:
  assumes inv: "transport_inv s" and e: "e \<in> set (pendingRequests s)"
  shows "promise (snd e) \<notin> fst ` set (settled s) \<and> promise (snd e) < nextPromise s"
proof -
  obtain tm where tm: "map_of (timers s) (timeoutId (snd e)) = Some tm"
    "tm_promise tm = promise (snd e)"
    using entry_timer [OF inv e] by (elim exE conjE)
  show ?thesis using inv_timer [OF inv tm(1)] tm(2) by simp
qed

lemma inv_destroy:
  assumes inv: "transport_inv s"
  shows "transport_inv (destroy s)"
proof (rule invI)
  show "distinct (map fst (pendingRequests (destroy s)))" by (simp add: destroy_fields)
next
  fix r pe assume "map_of (pendingRequests (destroy s)) r = Some pe"
  then show "\<exists>tm. map_of (timers (destroy s)) (timeoutId pe) = Some tm
              \<and> tm_requestId tm = r \<and> tm_promise tm = promise pe"
    by (simp add: destroy_fields)
next
  fix t1 t2 tm1 tm2
  assume "map_of (timers (destroy s)) t1 = Some tm1" "map_of (timers (destroy s)) t2 = Some tm2"
    and eq: "tm_promise tm1 = tm_promise tm2"
  then have "map_of (timers s) t1 = Some tm1" "map_of (timers s) t2 = Some tm2"
    by (simp_all add: destroy_fields split: if_splits)
  then show "t1 = t2" using eq by (rule inv_inj [OF inv])
next
  fix t tm
  assume h: "map_of (timers (destroy s)) t = Some tm"
  then have out: "t \<notin> (\<lambda>e. timeoutId (snd e)) ` set (pendingRequests s)"
    and old: "map_of (timers s) t = Some tm"
    by (simp_all add: destroy_fields split: if_splits)
  have a: "tm_promise tm \<notin> fst ` set (settled s)" "tm_promise tm < nextPromise s" "t < nextTimer s"
    using inv_timer [OF inv old] by simp_all
  have b: "tm_promise tm \<noteq> promise (snd e)" if e: "e \<in> set (pendingRequests s)" for e
  proof
    assume eq: "tm_promise tm = promise (snd e)"
    obtain tm' where tm': "map_of (timers s) (timeoutId (snd e)) = Some tm'"
      "tm_promise tm' = promise (snd e)"
      using entry_timer [OF inv e] by (elim exE conjE)
    have "tm_promise tm = tm_promise tm'" using eq tm'(2) by simp
    then have "t = timeoutId (snd e)" by (rule inv_inj [OF inv old tm'(1)])
    then show False using out e by simp
  qed
  have "tm_promise tm \<notin> fst ` set (settled (destroy s))"
  proof
    assume "tm_promise tm \<in> fst ` set (settled (destroy s))"
    then have "tm_promise tm \<in> fst ` set (settled s)
        \<or> tm_promise tm \<in> (\<lambda>e. promise (snd e)) ` set (pendingRequests s)"
      by (simp add: destroy_settled_promises)
    then show False using a(1) b by blast
  qed
  then show "tm_promise tm \<notin> fst ` set (settled (destroy s))
      \<and> tm_promise tm < nextPromise (destroy s) \<and> t < nextTimer (destroy s)"
    using a by (simp add: destroy_fields)
next
  have d1: "distinct (pendingRequests s)"
    using inv_keys [OF inv] by (simp add: distinct_map)
  have d2: "distinct (map (\<lambda>e. promise (snd e)) (pendingRequests s))"
    using d1 entry_promises_inj [OF inv] by (simp add: distinct_map)
  have d3: "promise (snd e) \<notin> fst ` set (settled s)" if "e \<in> set (pendingRequests s)" for e
    using entry_promise_unsettled [OF inv that] by simp
  have d4: "fst ` set (settled s) \<inter> (\<lambda>e. promise (snd e)) ` set (pendingRequests s) = {}"
  proof (rule equals0I)
    fix q
    assume "q \<in> fst ` set (settled s) \<inter> (\<lambda>e. promise (snd e)) ` set (pendingRequests s)"
    then have q1: "q \<in> fst ` set (settled s)"
      and q2: "q \<in> (\<lambda>e. promise (snd e)) ` set (pendingRequests s)" by simp_all
    from q2 obtain e where "e \<in> set (pendingRequests s)" "q = promise (snd e)" by (rule imageE)
    then show False using d3 [of e] q1 by simp
  qed
  show "distinct (map fst (settled (destroy s)))"
    using inv_settled [OF inv] d2 d4 by (simp add: destroy_fields comp_def image_image)
next
  fix q assume "q \<in> fst ` set (settled (destroy s))"
  then have "q \<in> fst ` set (settled s) \<or> q \<in> (\<lambda>e. promise (snd e)) ` set (pendingRequests s)"
    by (simp add: destroy_settled_promises)
  then have "q < nextPromise s"
    using inv_bound [OF inv, of q] entry_promise_unsettled [OF inv] by blast
  then show "q < nextPromise (destroy s)" by (simp add: destroy_fields)
qed

lemma inv_step: "transport_inv s \<Longrightarrow> transport_inv (step ev s)"
  by (cases ev) (simp_all add: inv_send inv_handleResponse inv_timer_fires inv_destroy)

lemma inv_fold: "transport_inv s \<Longrightarrow> transport_inv (fold step evs s)"
  by (induction evs arbitrary: s) (simp_all add: inv_step)

lemma inv_run: "transport_inv s \<Longrightarrow> transport_inv (run evs s)"
  by (simp add: run_def inv_fold)


subsection \<open>Settlement\<close>

lemma settled_step: "\<exists>ys. settled (step ev s) = settled s @ ys"
proof (cases ev)
  case (Send a p c rid orig)
  then show ?thesis by (simp add: send_fields)
next
  case (Deliver data)
  then show ?thesis
    by (auto simp: handleResponse_def split: option.splits prod.splits)
next
  case (Fire t)
  then show ?thesis by (auto simp: timer_fires_def split: option.splits)
next
  case Destroy
  then show ?thesis by (simp add: destroy_fields)
qed

lemma settled_fold: "\<exists>ys. settled (fold step evs s) = settled s @ ys"
proof (induction evs arbitrary: s)
  case Nil
  then show ?case by simp
next
  case (Cons ev evs)
  obtain ys where a: "settled (step ev s) = settled s @ ys" using settled_step by blast
  obtain zs where b: "settled (fold step evs (step ev s)) = settled (step ev s) @ zs"
    using Cons.IH by blast
  show ?case using a b by simp
qed

lemma settled_run_append: "\<exists>ys. settled (run (evs @ later) s) = settled (run evs s) @ ys"
  using settled_fold [of later "fold step evs s"] by (simp add: run_def)

lemma not_listening_step: "\<not> listening s \<Longrightarrow> \<not> listening (step ev s)"
  by (cases ev) (auto simp: send_fields timer_fires_def destroy_fields split: option.splits)

lemma not_listening_fold: "\<not> listening s \<Longrightarrow> \<not> listening (fold step evs s)"
  by (induction evs arbitrary: s) (simp_all add: not_listening_step)

lemma not_listening_after_destroy: "\<not> listening (run later (destroy s))"
  by (simp add: run_def not_listening_fold destroy_fields)

lemma handleResponse_unknown:
  "map_of (pendingRequests s) rid = None \<Longrightarrow> get_prop data ''requestId'' = JStr rid \<Longrightarrow>
     handleResponse data s = s"
  by (simp add: handleResponse_def lookup_pending_def)

lemma timer_fires_removes:
  "map_of (timers s) t = Some tm \<Longrightarrow>
     map_of (pendingRequests (timer_fires t s)) (tm_requestId tm) = None"
  by (simp add: timer_fires_def delete_conv')

lemma late_response_after_timeout:
  assumes "map_of (timers s) t = Some tm" and "get_prop data ''requestId'' = JStr (tm_requestId tm)"
  shows "step (Deliver data) (step (Fire t) s) = step (Fire t) s"
  using handleResponse_unknown [OF timer_fires_removes [OF assms(1)] assms(2)] by simp

text \<open>
  C1. In every state reachable from a new instance by sends, response events, timer
  expiries and calls of \<^verbatim>\<open>destroy\<close>, no promise occurs twice in the settlement log, and
  the log only grows: each promise returned by \<^verbatim>\<open>sendToExtension\<close> is resolved or rejected
  at most once. Once a timer has fired, its request is no longer in the table and a response
  carrying its identifier changes nothing; after \<^verbatim>\<open>destroy\<close> the table is empty and a
  response event, whenever it arrives, changes nothing.
\<close>

theorem settles_at_most_once:
  "distinct (map fst (settled (run evs (new_SeedKey opts))))
   \<and> (\<exists>ys. settled (run (evs @ later) (new_SeedKey opts)) = settled (run evs (new_SeedKey opts)) @ ys)
   \<and> (\<forall>t tm data. map_of (timers s) t = Some tm \<and> get_prop data ''requestId'' = JStr (tm_requestId tm)
         \<longrightarrow> map_of (pendingRequests (step (Fire t) s)) (tm_requestId tm) = None
           \<and> step (Deliver data) (step (Fire t) s) = step (Fire t) s)
   \<and> pendingRequests (destroy s) = []
   \<and> step (Deliver data') (run later (destroy s)) = run later (destroy s)"
proof (intro conjI allI impI)
  show "distinct (map fst (settled (run evs (new_SeedKey opts))))"
    by (rule inv_settled [OF inv_run [OF inv_new]])
  show "\<exists>ys. settled (run (evs @ later) (new_SeedKey opts)) = settled (run evs (new_SeedKey opts)) @ ys"
    by (rule settled_run_append)
  show "pendingRequests (destroy s) = []" by (simp add: destroy_fields)
  show "step (Deliver data') (run later (destroy s)) = run later (destroy s)"
    using not_listening_after_destroy [of later s] by simp
next
  fix t tm data
  assume h: "map_of (timers s) t = Some tm \<and> get_prop data ''requestId'' = JStr (tm_requestId tm)"
  show "map_of (pendingRequests (step (Fire t) s)) (tm_requestId tm) = None"
    using h timer_fires_removes by simp
  show "step (Deliver data) (step (Fire t) s) = step (Fire t) s"
    using h late_response_after_timeout by blast
qed

theorem settles_at_most_once_witness:
  "map_of (timers (run [send_1] fresh)) 0 =
     Some \<lparr>tm_requestId = ''req_1'', tm_promise = 0, tm_delay = 60000\<rparr>
   \<and> get_prop response_1 ''requestId'' = JStr ''req_1''
   \<and> step (Deliver response_1) (step (Fire 0) (run [send_1] fresh)) = step (Fire 0) (run [send_1] fresh)
   \<and> distinct (map fst (settled (run [send_1, Fire 0, Deliver response_1] (new_SeedKey example_options))))"
proof -
  let ?tm = "\<lparr>tm_requestId = ''req_1'', tm_promise = 0, tm_delay = 60000\<rparr>"
  have a: "map_of (timers (run [send_1] fresh)) 0 = Some ?tm"
    by (simp add: eval_transport)
  have b: "get_prop response_1 ''requestId'' = JStr (tm_requestId ?tm)"
    by (simp add: response_1_def)
  note T = settles_at_most_once [where evs = "[send_1, Fire 0, Deliver response_1]"
      and opts = example_options and s = "run [send_1] fresh"
      and later = "[]" and data' = JNull]
  have c: "distinct (map fst (settled (run [send_1, Fire 0, Deliver response_1] (new_SeedKey example_options))))"
    using T by simp
  have "\<forall>t tm data. map_of (timers (run [send_1] fresh)) t = Some tm
          \<and> get_prop data ''requestId'' = JStr (tm_requestId tm)
         \<longrightarrow> map_of (pendingRequests (step (Fire t) (run [send_1] fresh))) (tm_requestId tm) = None
           \<and> step (Deliver data) (step (Fire t) (run [send_1] fresh)) = step (Fire t) (run [send_1] fresh)"
    using T by blast
  then have "step (Deliver response_1) (step (Fire 0) (run [send_1] fresh)) = step (Fire 0) (run [send_1] fresh)"
    using a b by blast
  then show ?thesis using a b c by simp
qed

subsection \<open>Timeouts\<close>

lemma timeout_error_eq:
  "timeout_error =
     SeedKeyError ''ExtensionNotFoundError'' (JStr ''EXTENSION_NOT_FOUND'')
       ''Request timed out. Make sure SeedKey extension is installed.''
       (JStr ''Install SeedKey browser extension'') (JStr EXTENSION_DOWNLOAD_URL)"
  by (simp add: timeout_error_def new_ExtensionNotFoundError_def error_message_def
      EXTENSION_NOT_FOUND_def)

text \<open>
  C6. When the timer armed by \<^verbatim>\<open>sendToExtension\<close> expires, the entry of its request is
  removed and its promise is rejected with an \<^verbatim>\<open>ExtensionNotFoundError\<close>: code
  \<^verbatim>\<open>EXTENSION_NOT_FOUND\<close> (never \<^verbatim>\<open>TIMEOUT\<close>), the remediation hint and the download URL.
  A timer that is not armed does nothing.
\<close>

theorem timeout_reports_extension_not_found:
  "(map_of (timers s) t = Some tm \<longrightarrow>
      settled (timer_fires t s) = settled s @ [(tm_promise tm, Reject timeout_error)]
      \<and> map_of (pendingRequests (timer_fires t s)) (tm_requestId tm) = None
      \<and> map_of (timers (timer_fires t s)) t = None)
   \<and> (map_of (timers s) t = None \<longrightarrow> timer_fires t s = s)
   \<and> map_of (timers (sendToExtension a p c rid orig s)) (nextTimer s) =
       Some \<lparr>tm_requestId = rid, tm_promise = nextPromise s, tm_delay = effective_timeout s c\<rparr>
   \<and> timeout_error =
       SeedKeyError ''ExtensionNotFoundError'' (JStr ''EXTENSION_NOT_FOUND'')
         ''Request timed out. Make sure SeedKey extension is installed.''
         (JStr ''Install SeedKey browser extension'') (JStr EXTENSION_DOWNLOAD_URL)
   \<and> code timeout_error = JStr EXTENSION_NOT_FOUND
   \<and> code timeout_error \<noteq> JStr TIMEOUT"
  by (simp add: timeout_error_eq [symmetric] send_fields)
     (simp add: timer_fires_def delete_conv' timeout_error_eq EXTENSION_NOT_FOUND_def TIMEOUT_def)

theorem timeout_reports_extension_not_found_witness:
  "map_of (timers (run [send_1] fresh)) 0 =
     Some \<lparr>tm_requestId = ''req_1'', tm_promise = 0, tm_delay = 60000\<rparr>
   \<and> settled (timer_fires 0 (run [send_1] fresh)) = [(0, Reject timeout_error)]
   \<and> map_of (pendingRequests (timer_fires 0 (run [send_1] fresh))) ''req_1'' = None
   \<and> map_of (timers (run [send_1] fresh)) 7 = None
   \<and> timer_fires 7 (run [send_1] fresh) = run [send_1] fresh"
proof -
  have a: "map_of (timers (run [send_1] fresh)) 0 =
     Some \<lparr>tm_requestId = ''req_1'', tm_promise = 0, tm_delay = 60000\<rparr>"
    by (simp add: eval_transport)
  have b: "map_of (timers (run [send_1] fresh)) 7 = None"
    by (simp add: eval_transport)
  have c: "settled (run [send_1] fresh) = []"
    by (simp add: eval_transport)
  show ?thesis
    using a b c
      timeout_reports_extension_not_found [where s = "run [send_1] fresh" and t = 0
        and tm = "\<lparr>tm_requestId = ''req_1'', tm_promise = 0, tm_delay = 60000\<rparr>"]
      timeout_reports_extension_not_found [where s = "run [send_1] fresh" and t = 7]
    by simp
qed

subsection \<open>Sending after teardown\<close>

text \<open>
  C8, as stated, fails: after \<^verbatim>\<open>destroy\<close> a send does not fail fast (its entry is
  registered and nothing is settled), and it does not behave as on a new instance either: the
  response that resolves the request on a new instance is ignored.
\<close>

theorem send_after_destroy_counterexample:
  "pendingRequests (run [Destroy, send_1] fresh) = [(''req_1'', \<lparr>promise = 0, timeoutId = 0\<rparr>)]
   \<and> settled (run [Destroy, send_1] fresh) = []
   \<and> settled (run [Destroy, send_1, Deliver response_1] fresh) = []
   \<and> settled (run [send_1, Deliver response_1] fresh) =
       [(0, Resolve (JObj [(''publicKey'', JStr ''k1'')]))]"
  by (simp add: eval_transport)

text \<open>
  C8, amended. \<^verbatim>\<open>destroy\<close> does not block later sends. At any time after a
  \<^verbatim>\<open>destroy\<close>, \<^verbatim>\<open>sendToExtension\<close> registers its entry and arms its timer as before and
  settles nothing; the listener stays detached, so no response event settles the request;
  the expiry of its timer rejects it with the extension-not-found error. Directly after
  \<^verbatim>\<open>destroy\<close> the table holds the new entry only: no entry from before the teardown comes
  back.
\<close>

theorem send_after_destroy:
  "map_of (pendingRequests (sendToExtension a p c rid orig (run later (destroy s)))) rid =
     Some \<lparr>promise = nextPromise (run later (destroy s)), timeoutId = nextTimer (run later (destroy s))\<rparr>
   \<and> map_of (timers (sendToExtension a p c rid orig (run later (destroy s))))
         (nextTimer (run later (destroy s))) =
       Some \<lparr>tm_requestId = rid, tm_promise = nextPromise (run later (destroy s)),
             tm_delay = effective_timeout (run later (destroy s)) c\<rparr>
   \<and> settled (sendToExtension a p c rid orig (run later (destroy s))) = settled (run later (destroy s))
   \<and> step (Deliver data) (sendToExtension a p c rid orig (run later (destroy s))) =
       sendToExtension a p c rid orig (run later (destroy s))
   \<and> settled (step (Fire (nextTimer (run later (destroy s))))
                (sendToExtension a p c rid orig (run later (destroy s)))) =
       settled (run later (destroy s)) @ [(nextPromise (run later (destroy s)), Reject timeout_error)]
   \<and> pendingRequests (sendToExtension a p c rid orig (destroy s)) =
       [(rid, \<lparr>promise = nextPromise s, timeoutId = nextTimer s\<rparr>)]"
proof -
  let ?d = "run later (destroy s)"
  have l: "\<not> listening (sendToExtension a p c rid orig ?d)"
    using not_listening_after_destroy [of later s] by (simp add: send_fields)
  have f: "settled (timer_fires (nextTimer ?d) (sendToExtension a p c rid orig ?d)) =
       settled ?d @ [(nextPromise ?d, Reject timeout_error)]"
    by (simp add: timer_fires_def send_fields)
  have e: "pendingRequests (sendToExtension a p c rid orig (destroy s)) =
       [(rid, \<lparr>promise = nextPromise s, timeoutId = nextTimer s\<rparr>)]"
    by (simp add: sendToExtension_def destroy_fields)
  show ?thesis using l f e by (simp add: send_fields)
qed

subsection \<open>The default instance\<close>

text \<open>
  C10. With no default instance, \<^verbatim>\<open>getSeedKey()\<close> throws and \<^verbatim>\<open>getSeedKey(options)\<close>
  creates the instance from the options and returns it. With a default instance,
  \<^verbatim>\<open>getSeedKey\<close> returns that instance whatever options it is given and changes nothing.
  \<^verbatim>\<open>resetSeedKey()\<close> destroys the default instance and clears the variable, so that
  \<^verbatim>\<open>getSeedKey()\<close> throws again and \<^verbatim>\<open>getSeedKey(options)\<close> creates a new object, different
  from the destroyed one.
\<close>

theorem default_instance_lifecycle:
  "(defaultInstance m = None \<longrightarrow>
      getSeedKey None m = (Inl not_initialized_error, m)
      \<and> getSeedKey (Some opts) m =
          (Inr (nextRef m),
           m\<lparr>heap := (heap m)(nextRef m \<mapsto> new_SeedKey opts),
             nextRef := Suc (nextRef m),
             defaultInstance := Some (nextRef m)\<rparr>)
      \<and> resetSeedKey m = m)
   \<and> (\<forall>r. defaultInstance m = Some r \<longrightarrow>
         getSeedKey options m = (Inr r, m))
   \<and> (\<forall>r s. defaultInstance m = Some r \<and> heap m r = Some s \<and> r < nextRef m \<longrightarrow>
         resetSeedKey m = m\<lparr>heap := (heap m)(r \<mapsto> destroy s), defaultInstance := None\<rparr>
         \<and> fst (getSeedKey None (resetSeedKey m)) = Inl not_initialized_error
         \<and> fst (getSeedKey (Some opts) (resetSeedKey m)) = Inr (nextRef m)
         \<and> nextRef m \<noteq> r
         \<and> heap (snd (getSeedKey (Some opts) (resetSeedKey m))) (nextRef m) = Some (new_SeedKey opts)
         \<and> heap (snd (getSeedKey (Some opts) (resetSeedKey m))) r = Some (destroy s)
         \<and> defaultInstance (snd (getSeedKey (Some opts) (resetSeedKey m))) = Some (nextRef m))"
  by (auto simp: getSeedKey_def resetSeedKey_def Let_def split: option.splits)

theorem default_instance_lifecycle_witness:
  "defaultInstance initial_module = None
   \<and> fst (getSeedKey None initial_module) = Inl not_initialized_error
   \<and> defaultInstance (snd (getSeedKey (Some example_options) initial_module)) = Some 0
   \<and> heap (snd (getSeedKey (Some example_options) initial_module)) 0 = Some fresh
   \<and> 0 < nextRef (snd (getSeedKey (Some example_options) initial_module))
   \<and> getSeedKey (Some other_options) (snd (getSeedKey (Some example_options) initial_module)) =
       (Inr 0, snd (getSeedKey (Some example_options) initial_module))
   \<and> fst (getSeedKey (Some other_options)
             (resetSeedKey (snd (getSeedKey (Some example_options) initial_module)))) = Inr 1"
proof -
  let ?m = "snd (getSeedKey (Some example_options) initial_module)"
  note T0 = default_instance_lifecycle [of initial_module example_options None]
  have a: "defaultInstance initial_module = None" by (simp add: initial_module_def)
  have g0: "getSeedKey None initial_module = (Inl not_initialized_error, initial_module)"
    using T0 a by simp
  have m: "?m = \<lparr>heap = [0 \<mapsto> fresh], nextRef = 1, defaultInstance = Some 0\<rparr>"
    using T0 a by (simp add: initial_module_def fresh_def)
  have b: "defaultInstance ?m = Some 0" "heap ?m 0 = Some fresh" "0 < nextRef ?m" "nextRef ?m = 1"
    by (simp_all add: m)
  note T1 = default_instance_lifecycle [of ?m other_options "Some other_options"]
  have c: "\<forall>r. defaultInstance ?m = Some r \<longrightarrow> getSeedKey (Some other_options) ?m = (Inr r, ?m)"
    using T1 by blast
  have g2: "getSeedKey (Some other_options) ?m = (Inr 0, ?m)"
    using c b(1) by blast
  have d: "\<forall>r s. defaultInstance ?m = Some r \<and> heap ?m r = Some s \<and> r < nextRef ?m \<longrightarrow>
      fst (getSeedKey (Some other_options) (resetSeedKey ?m)) = Inr (nextRef ?m)"
    using T1 by blast
  have "fst (getSeedKey (Some other_options) (resetSeedKey ?m)) = Inr (nextRef ?m)"
    using d b(1,2,3) by blast
  then have g3: "fst (getSeedKey (Some other_options) (resetSeedKey ?m)) = Inr 1"
    using b(4) by simp
  show ?thesis using a g0 b g2 g3 by simp
qed


section \<open>Properties of the flow orchestrator\<close>

subsection \<open>Histories of the flows\<close>

lemma await_Inr:
  "await m f tr = (Inr y, tr') \<longleftrightarrow> (\<exists>x tr1. m tr = (Inr x, tr1) \<and> f x tr1 = (Inr y, tr'))"
  by (cases "m tr"; cases "fst (m tr)") (auto simp: await_def)

lemma log_groups_append: "log_groups (tr @ tr') = log_groups tr @ log_groups tr'"
  by (simp add: log_groups_def)

lemma await_quiet:
  assumes "\<And>tr. log_groups (snd (m tr)) = log_groups tr"
    and "\<And>x tr. log_groups (snd (f x tr)) = log_groups tr"
  shows "log_groups (snd (await m f tr)) = log_groups tr"
proof (cases "m tr")
  case (Pair r tr1)
  have a: "log_groups tr1 = log_groups tr" using assms(1) [of tr] Pair by simp
  show ?thesis
  proof (cases r)
    case (Inl e)
    then show ?thesis using Pair a by (simp add: await_def)
  next
    case (Inr x)
    then show ?thesis using Pair a assms(2) [of x tr1] by (simp add: await_def)
  qed
qed

lemma sync_quiet: "log_groups (snd (sync r tr)) = log_groups tr"
  by (simp add: sync_def)

lemma send_quiet: "log_groups (snd (send sk w a p c tr)) = log_groups tr"
  by (simp add: send_def Let_def log_groups_def)

lemma http_request_quiet: "log_groups (snd (http_request sk w path init tr)) = log_groups tr"
  by (simp add: http_request_def Let_def log_groups_def split: sum.splits)

lemma httpPost_quiet: "log_groups (snd (httpPost sk w path b hdrs tr)) = log_groups tr"
  by (simp add: httpPost_def http_request_quiet)

lemma requestChallenge_quiet: "log_groups (snd (requestChallenge sk w pk a tr)) = log_groups tr"
  by (simp add: requestChallenge_def httpPost_quiet)

lemma getPublicKey_quiet: "log_groups (snd (getPublicKey sk w tr)) = log_groups tr"
  unfolding getPublicKey_def by (intro await_quiet sync_quiet send_quiet)

lemma signChallenge_quiet: "log_groups (snd (signChallenge sk w ch tr)) = log_groups tr"
  unfolding signChallenge_def by (intro await_quiet sync_quiet send_quiet)

lemma await_log_group:
  assumes "\<And>tr. log_groups (snd (f () tr)) = log_groups tr"
  shows "log_groups (snd (await (log_group l) f tr)) = log_groups tr @ [l]"
  using assms [of "tr @ [LogGroup l]"] by (simp add: await_def log_group_def log_groups_def)

lemma authenticate_groups:
  "log_groups (snd (authenticate sk w tr)) = log_groups tr @ [''User authentication'']"
  unfolding authenticate_def
  by (rule await_log_group)
     (intro await_quiet sync_quiet getPublicKey_quiet requestChallenge_quiet signChallenge_quiet
        httpPost_quiet)

lemma register_groups:
  "log_groups (snd (register sk w opts tr)) = log_groups tr @ [''User registration'']"
  unfolding register_def
  by (rule await_log_group)
     (intro await_quiet sync_quiet getPublicKey_quiet requestChallenge_quiet signChallenge_quiet
        httpPost_quiet)

lemma is_user_not_found_iff:
  "is_user_not_found e \<longleftrightarrow> isSeedKeyError e \<and> code e = JStr USER_NOT_FOUND"
  by (cases e) (simp_all add: is_user_not_found_def)

text \<open>
  C2. \<^verbatim>\<open>auth(opts)\<close> runs \<^verbatim>\<open>authenticate()\<close> first. If that succeeds, its result is
  returned. If it fails with anything but a \<^verbatim>\<open>SeedKeyError\<close> whose code is
  \<^verbatim>\<open>USER_NOT_FOUND\<close>, the same failure is the result and nothing further is asked of the
  custodian or the backend: only the authentication flow was entered. If it fails with a
  \<^verbatim>\<open>SeedKeyError\<close> of code \<^verbatim>\<open>USER_NOT_FOUND\<close>, the result is whatever \<^verbatim>\<open>register(opts)\<close>
  yields from there, a failure included, and the flows entered are authentication once, then
  registration once.
\<close>

theorem auth_single_fallback:
  "(\<forall>res tr1. authenticate sk w tr = (Inr res, tr1) \<longrightarrow>
      auth sk w opts tr = (Inr res, tr1)
      \<and> log_groups (snd (auth sk w opts tr)) = log_groups tr @ [''User authentication''])
   \<and> (\<forall>e tr1. authenticate sk w tr = (Inl e, tr1)
         \<and> \<not> (isSeedKeyError e \<and> code e = JStr USER_NOT_FOUND) \<longrightarrow>
      auth sk w opts tr = (Inl e, tr1)
      \<and> log_groups (snd (auth sk w opts tr)) = log_groups tr @ [''User authentication''])
   \<and> (\<forall>e tr1. authenticate sk w tr = (Inl e, tr1)
         \<and> isSeedKeyError e \<and> code e = JStr USER_NOT_FOUND \<longrightarrow>
      auth sk w opts tr = register sk w opts tr1
      \<and> log_groups (snd (auth sk w opts tr)) =
          log_groups tr @ [''User authentication'', ''User registration''])"
proof (intro conjI allI impI)
  fix res tr1 assume h: "authenticate sk w tr = (Inr res, tr1)"
  show "auth sk w opts tr = (Inr res, tr1)" using h by (simp add: auth_def)
  then show "log_groups (snd (auth sk w opts tr)) = log_groups tr @ [''User authentication'']"
    using authenticate_groups [of sk w tr] h by simp
next
  fix e tr1
  assume h: "authenticate sk w tr = (Inl e, tr1) \<and> \<not> (isSeedKeyError e \<and> code e = JStr USER_NOT_FOUND)"
  have "\<not> is_user_not_found e" using h by (simp add: is_user_not_found_iff)
  then show "auth sk w opts tr = (Inl e, tr1)" using h by (simp add: auth_def)
  then show "log_groups (snd (auth sk w opts tr)) = log_groups tr @ [''User authentication'']"
    using authenticate_groups [of sk w tr] h by simp
next
  fix e tr1
  assume h: "authenticate sk w tr = (Inl e, tr1) \<and> isSeedKeyError e \<and> code e = JStr USER_NOT_FOUND"
  have "is_user_not_found e" using h by (simp add: is_user_not_found_iff)
  then show a: "auth sk w opts tr = register sk w opts tr1"
    using h by (simp add: auth_def)
  have "log_groups tr1 = log_groups tr @ [''User authentication'']"
    using authenticate_groups [of sk w tr] h by simp
  then show "log_groups (snd (auth sk w opts tr)) =
          log_groups tr @ [''User authentication'', ''User registration'']"
    using register_groups [of sk w opts tr1] a by simp
qed

lemmas eval_flow =
  authenticate_def register_def await_def sync_def log_group_def send_def
  getPublicKey_def signChallenge_def requestChallenge_def httpPost_def http_request_def
  http_result_def http_catch_def member_def has_slice_def with_action_def spread_def
  opt_member_def js_or_def getDeviceName_def effective_timeout_def new_SeedKeyError_def
  error_message_def network_error_def
  fresh_def new_SeedKey_def example_options_def
  new_user_world_def known_user_world_def silent_world_def example_extension_def
  new_user_fetch_def known_user_fetch_def example_challenge_def example_auth_result_def
  example_not_found_def SDK_VERSION_def SERVER_ERROR_def

lemma new_user_authenticate:
  "fst (authenticate fresh new_user_world tr) =
     Inl (SeedKeyError ''SeedKeyError'' (JStr ''USER_NOT_FOUND'') ''User not found'' JUndefined JUndefined)"
  by (simp add: eval_flow Let_def)

lemma new_user_register:
  "fst (register fresh new_user_world JUndefined tr) =
     Inr (JObj [(''success'', JBool True), (''action'', JStr ''register''),
                (''user'', JObj [(''id'', JStr ''u1'')]),
                (''token'', JObj [(''accessToken'', JStr ''at'')])])"
  by (simp add: eval_flow Let_def)

lemma known_user_authenticate:
  "fst (authenticate fresh known_user_world tr) =
     Inr (JObj [(''success'', JBool True), (''action'', JStr ''login''),
                (''user'', JObj [(''id'', JStr ''u1'')]),
                (''token'', JObj [(''accessToken'', JStr ''at'')])])"
  by (simp add: eval_flow Let_def)

lemma silent_authenticate:
  "fst (authenticate fresh silent_world tr) = Inl timeout_error"
  by (simp add: eval_flow Let_def)

theorem auth_single_fallback_witness:
  "fst (authenticate fresh new_user_world []) =
     Inl (SeedKeyError ''SeedKeyError'' (JStr ''USER_NOT_FOUND'') ''User not found'' JUndefined JUndefined)
   \<and> fst (auth fresh new_user_world JUndefined []) =
     Inr (JObj [(''success'', JBool True), (''action'', JStr ''register''),
                (''user'', JObj [(''id'', JStr ''u1'')]),
                (''token'', JObj [(''accessToken'', JStr ''at'')])])
   \<and> log_groups (snd (auth fresh new_user_world JUndefined [])) =
     [''User authentication'', ''User registration'']
   \<and> fst (authenticate fresh silent_world []) = Inl timeout_error
   \<and> \<not> (isSeedKeyError timeout_error \<and> code timeout_error = JStr USER_NOT_FOUND)
   \<and> fst (auth fresh silent_world JUndefined []) = Inl timeout_error
   \<and> log_groups (snd (auth fresh silent_world JUndefined [])) = [''User authentication'']
   \<and> fst (auth fresh known_user_world JUndefined []) = fst (authenticate fresh known_user_world [])"
proof -
  let ?unf = "SeedKeyError ''SeedKeyError'' (JStr ''USER_NOT_FOUND'') ''User not found'' JUndefined JUndefined"
  obtain tr1 where a: "authenticate fresh new_user_world [] = (Inl ?unf, tr1)"
    using new_user_authenticate [of "[]"] by (cases "authenticate fresh new_user_world []") simp
  have a': "isSeedKeyError ?unf \<and> code ?unf = JStr USER_NOT_FOUND"
    by (simp add: USER_NOT_FOUND_def)
  note T1 = auth_single_fallback [of fresh new_user_world "[]" JUndefined]
  have "\<forall>e tr1. authenticate fresh new_user_world [] = (Inl e, tr1)
         \<and> isSeedKeyError e \<and> code e = JStr USER_NOT_FOUND \<longrightarrow>
      auth fresh new_user_world JUndefined [] = register fresh new_user_world JUndefined tr1
      \<and> log_groups (snd (auth fresh new_user_world JUndefined [])) =
          log_groups [] @ [''User authentication'', ''User registration'']"
    using T1 by blast
  then have b: "auth fresh new_user_world JUndefined [] = register fresh new_user_world JUndefined tr1
      \<and> log_groups (snd (auth fresh new_user_world JUndefined [])) =
          log_groups [] @ [''User authentication'', ''User registration'']"
    using a a' by blast
  obtain tr2 where c: "authenticate fresh silent_world [] = (Inl timeout_error, tr2)"
    using silent_authenticate [of "[]"] by (cases "authenticate fresh silent_world []") simp
  have c': "\<not> (isSeedKeyError timeout_error \<and> code timeout_error = JStr USER_NOT_FOUND)"
    by (simp add: timeout_error_eq USER_NOT_FOUND_def)
  note T2 = auth_single_fallback [of fresh silent_world "[]" JUndefined]
  have "\<forall>e tr1. authenticate fresh silent_world [] = (Inl e, tr1)
         \<and> \<not> (isSeedKeyError e \<and> code e = JStr USER_NOT_FOUND) \<longrightarrow>
      auth fresh silent_world JUndefined [] = (Inl e, tr1)
      \<and> log_groups (snd (auth fresh silent_world JUndefined [])) = log_groups [] @ [''User authentication'']"
    using T2 by blast
  then have d: "auth fresh silent_world JUndefined [] = (Inl timeout_error, tr2)
      \<and> log_groups (snd (auth fresh silent_world JUndefined [])) = log_groups [] @ [''User authentication'']"
    using c c' by blast
  obtain res tr3 where e: "authenticate fresh known_user_world [] = (Inr res, tr3)"
    using known_user_authenticate [of "[]"] by (cases "authenticate fresh known_user_world []") simp
  note T3 = auth_single_fallback [of fresh known_user_world "[]" JUndefined]
  have "\<forall>res tr1. authenticate fresh known_user_world [] = (Inr res, tr1) \<longrightarrow>
      auth fresh known_user_world JUndefined [] = (Inr res, tr1)"
    using T3 by blast
  then have f: "auth fresh known_user_world JUndefined [] = (Inr res, tr3)"
    using e by blast
  have lg: "log_groups [] = []" by (simp add: log_groups_def)
  have g1: "fst (auth fresh new_user_world JUndefined []) =
     Inr (JObj [(''success'', JBool True), (''action'', JStr ''register''),
                (''user'', JObj [(''id'', JStr ''u1'')]),
                (''token'', JObj [(''accessToken'', JStr ''at'')])])"
    using b [THEN conjunct1] new_user_register [of tr1] by simp
  have g2: "log_groups (snd (auth fresh new_user_world JUndefined [])) =
     [''User authentication'', ''User registration'']"
    using b [THEN conjunct2] lg by simp
  have g3: "fst (auth fresh silent_world JUndefined []) = Inl timeout_error"
    using d [THEN conjunct1] by simp
  have g4: "log_groups (snd (auth fresh silent_world JUndefined [])) = [''User authentication'']"
    using d [THEN conjunct2] lg by simp
  have g5: "fst (auth fresh known_user_world JUndefined []) = fst (authenticate fresh known_user_world [])"
    using e f by simp
  show ?thesis
    by (intro conjI new_user_authenticate g1 g2 silent_authenticate c' g3 g4 g5)
qed

subsection \<open>Action tagging\<close>

lemma httpPost_Inr:
  assumes "httpPost sk w path b hdrs tr = (Inr data, tr')"
  shows "\<exists>resp.
           fetch w tr (backendUrl sk @ path)
             \<lparr>http_method = Some ''POST'',
              headers = spread [(''Content-Type'', ''application/json'')] hdrs,
              body = Some b\<rparr> = Inr resp
         \<and> tr' = tr @ [HttpCall (backendUrl sk @ path)
                          \<lparr>http_method = Some ''POST'',
                           headers = spread [(''Content-Type'', ''application/json'')] hdrs,
                           body = Some b\<rparr> (Inr resp)]
         \<and> ok resp \<and> json_result resp = Inr data"
  using assms
  by (auto simp: httpPost_def http_request_def http_result_def Let_def
      split: sum.splits if_splits)

lemma member_Inr: "member v k = Inr x \<longleftrightarrow> \<not> nullish v \<and> x = get_prop v k"
  by (auto simp: member_def)

lemma result_is_object:
  assumes "member result ''user'' = Inr user" and "member user ''id'' = Inr uid"
  shows "\<exists>kvs. result = JObj kvs"
proof -
  have "get_prop result ''user'' \<noteq> JUndefined"
    using assms by (auto simp: member_Inr)
  then show ?thesis by (cases result) simp_all
qed

lemma get_prop_update:
  "get_prop (JObj (AList.update k v kvs)) k' = (if k' = k then v else get_prop (JObj kvs) k')"
  by (simp add: update_conv')

lemma with_action_object:
  "with_action (JObj kvs) a = JObj (AList.update ''action'' (JStr a) kvs)"
  by (simp add: with_action_def spread_def)

lemma tagged_result:
  assumes post: "httpPost sk w path b [] tr = (Inr result, tr')"
    and user: "member result ''user'' = Inr user" and uid: "member user ''id'' = Inr x"
  shows "\<exists>tr6 b resp kvs.
           fetch w tr6 (backendUrl sk @ path)
             \<lparr>http_method = Some ''POST'', headers = [(''Content-Type'', ''application/json'')],
              body = Some b\<rparr> = Inr resp
         \<and> tr' = tr6 @ [HttpCall (backendUrl sk @ path)
                           \<lparr>http_method = Some ''POST'',
                            headers = [(''Content-Type'', ''application/json'')],
                            body = Some b\<rparr> (Inr resp)]
         \<and> ok resp \<and> json_result resp = Inr (JObj kvs)
         \<and> with_action result a = JObj (AList.update ''action'' (JStr a) kvs)
         \<and> get_prop (with_action result a) ''action'' = JStr a
         \<and> (\<forall>k. k \<noteq> ''action'' \<longrightarrow> get_prop (with_action result a) k = get_prop (JObj kvs) k)"
proof -
  obtain resp where r:
    "fetch w tr (backendUrl sk @ path)
       \<lparr>http_method = Some ''POST'', headers = [(''Content-Type'', ''application/json'')],
        body = Some b\<rparr> = Inr resp"
    "tr' = tr @ [HttpCall (backendUrl sk @ path)
                   \<lparr>http_method = Some ''POST'', headers = [(''Content-Type'', ''application/json'')],
                    body = Some b\<rparr> (Inr resp)]"
    "ok resp" "json_result resp = Inr result"
    using httpPost_Inr [OF post] by (auto simp: spread_def)
  obtain kvs where k: "result = JObj kvs" using result_is_object [OF user uid] by blast
  show ?thesis
    using r k by (intro exI [of _ tr] exI [of _ b] exI [of _ resp] exI [of _ kvs])
      (simp add: with_action_object get_prop_update del: get_prop.simps)
qed

text \<open>
  C3. Whenever \<^verbatim>\<open>register()\<close> succeeds, its last request was the POST to the registration
  endpoint, the backend (\<open>fetch w\<close>) answered that request with success and an object, and
  the result is that very object with \<^verbatim>\<open>action\<close> set to \<^verbatim>\<open>register\<close>: every other
  property is as the backend sent it. The same holds for \<^verbatim>\<open>authenticate()\<close> with the
  verification endpoint and \<^verbatim>\<open>login\<close>.
\<close>

theorem flows_force_action:
  "(\<forall>r tr'. register sk w opts tr = (Inr r, tr') \<longrightarrow>
      (\<exists>tr6 b resp kvs.
           fetch w tr6 (backendUrl sk @ ''/api/v1/seedkey/register'')
             \<lparr>http_method = Some ''POST'', headers = [(''Content-Type'', ''application/json'')],
              body = Some b\<rparr> = Inr resp
         \<and> tr' = tr6 @ [HttpCall (backendUrl sk @ ''/api/v1/seedkey/register'')
                           \<lparr>http_method = Some ''POST'',
                            headers = [(''Content-Type'', ''application/json'')],
                            body = Some b\<rparr> (Inr resp)]
         \<and> ok resp \<and> json_result resp = Inr (JObj kvs)
         \<and> r = JObj (AList.update ''action'' (JStr ''register'') kvs)
         \<and> get_prop r ''action'' = JStr ''register''
         \<and> (\<forall>k. k \<noteq> ''action'' \<longrightarrow> get_prop r k = get_prop (JObj kvs) k)))
   \<and> (\<forall>r tr'. authenticate sk w tr = (Inr r, tr') \<longrightarrow>
      (\<exists>tr6 b resp kvs.
           fetch w tr6 (backendUrl sk @ ''/api/v1/seedkey/verify'')
             \<lparr>http_method = Some ''POST'', headers = [(''Content-Type'', ''application/json'')],
              body = Some b\<rparr> = Inr resp
         \<and> tr' = tr6 @ [HttpCall (backendUrl sk @ ''/api/v1/seedkey/verify'')
                           \<lparr>http_method = Some ''POST'',
                            headers = [(''Content-Type'', ''application/json'')],
                            body = Some b\<rparr> (Inr resp)]
         \<and> ok resp \<and> json_result resp = Inr (JObj kvs)
         \<and> r = JObj (AList.update ''action'' (JStr ''login'') kvs)
         \<and> get_prop r ''action'' = JStr ''login''
         \<and> (\<forall>k. k \<noteq> ''action'' \<longrightarrow> get_prop r k = get_prop (JObj kvs) k)))"
proof (intro conjI allI impI)
  fix r tr' assume "register sk w opts tr = (Inr r, tr')"
  then obtain b tr6 result user x where h:
    "httpPost sk w ''/api/v1/seedkey/register'' b [] tr6 = (Inr result, tr')"
    "member result ''user'' = Inr user" "member user ''id'' = Inr x"
    "r = with_action result ''register''"
    unfolding register_def by (auto simp: await_Inr sync_def)
  show "\<exists>tr6 b resp kvs.
           fetch w tr6 (backendUrl sk @ ''/api/v1/seedkey/register'')
             \<lparr>http_method = Some ''POST'', headers = [(''Content-Type'', ''application/json'')],
              body = Some b\<rparr> = Inr resp
         \<and> tr' = tr6 @ [HttpCall (backendUrl sk @ ''/api/v1/seedkey/register'')
                           \<lparr>http_method = Some ''POST'',
                            headers = [(''Content-Type'', ''application/json'')],
                            body = Some b\<rparr> (Inr resp)]
         \<and> ok resp \<and> json_result resp = Inr (JObj kvs)
         \<and> r = JObj (AList.update ''action'' (JStr ''register'') kvs)
         \<and> get_prop r ''action'' = JStr ''register''
         \<and> (\<forall>k. k \<noteq> ''action'' \<longrightarrow> get_prop r k = get_prop (JObj kvs) k)"
    using tagged_result [OF h(1,2,3), of "''register''"] h(4) by simp
next
  fix r tr' assume "authenticate sk w tr = (Inr r, tr')"
  then obtain b tr6 result user x where h:
    "httpPost sk w ''/api/v1/seedkey/verify'' b [] tr6 = (Inr result, tr')"
    "member result ''user'' = Inr user" "member user ''id'' = Inr x"
    "r = with_action result ''login''"
    unfolding authenticate_def by (auto simp: await_Inr sync_def)
  show "\<exists>tr6 b resp kvs.
           fetch w tr6 (backendUrl sk @ ''/api/v1/seedkey/verify'')
             \<lparr>http_method = Some ''POST'', headers = [(''Content-Type'', ''application/json'')],
              body = Some b\<rparr> = Inr resp
         \<and> tr' = tr6 @ [HttpCall (backendUrl sk @ ''/api/v1/seedkey/verify'')
                           \<lparr>http_method = Some ''POST'',
                            headers = [(''Content-Type'', ''application/json'')],
                            body = Some b\<rparr> (Inr resp)]
         \<and> ok resp \<and> json_result resp = Inr (JObj kvs)
         \<and> r = JObj (AList.update ''action'' (JStr ''login'') kvs)
         \<and> get_prop r ''action'' = JStr ''login''
         \<and> (\<forall>k. k \<noteq> ''action'' \<longrightarrow> get_prop r k = get_prop (JObj kvs) k)"
    using tagged_result [OF h(1,2,3), of "''login''"] h(4) by simp
qed

lemma second_user_register_succeeds:
  "\<exists>r. fst (register fresh second_user_world JUndefined tr) = Inr r"
  by (simp add: eval_flow second_user_world_def second_user_fetch_def second_user_result_def Let_def)

theorem flows_force_action_witness:
  "fst (register fresh second_user_world JUndefined []) =
     Inr (JObj [(''success'', JBool True), (''action'', JStr ''register''),
                (''user'', JObj [(''id'', JStr ''u2'')]),
                (''token'', JObj [(''accessToken'', JStr ''at2'')])])
   \<and> json_result second_user_result =
     Inr (JObj [(''success'', JBool True), (''action'', JStr ''login''),
                (''user'', JObj [(''id'', JStr ''u2'')]),
                (''token'', JObj [(''accessToken'', JStr ''at2'')])])
   \<and> fst (authenticate fresh known_user_world []) =
     Inr (JObj [(''success'', JBool True), (''action'', JStr ''login''),
                (''user'', JObj [(''id'', JStr ''u1'')]),
                (''token'', JObj [(''accessToken'', JStr ''at'')])])
   \<and> get_prop (projr (fst (authenticate fresh known_user_world []))) ''action'' = JStr ''login''"
proof -
  obtain r tr1 where a: "register fresh second_user_world JUndefined [] = (Inr r, tr1)"
    using second_user_register_succeeds [of "[]"]
    by (cases "register fresh second_user_world JUndefined []") auto
  have "\<forall>r tr'. register fresh second_user_world JUndefined [] = (Inr r, tr') \<longrightarrow>
      (\<exists>tr6 b resp kvs.
           fetch second_user_world tr6 (backendUrl fresh @ ''/api/v1/seedkey/register'')
             \<lparr>http_method = Some ''POST'', headers = [(''Content-Type'', ''application/json'')],
              body = Some b\<rparr> = Inr resp
         \<and> json_result resp = Inr (JObj kvs)
         \<and> r = JObj (AList.update ''action'' (JStr ''register'') kvs))"
    using flows_force_action [of fresh second_user_world JUndefined "[]"] by blast
  then obtain tr6 b resp kvs where t:
    "fetch second_user_world tr6 (backendUrl fresh @ ''/api/v1/seedkey/register'')
       \<lparr>http_method = Some ''POST'', headers = [(''Content-Type'', ''application/json'')],
        body = Some b\<rparr> = Inr resp"
    "json_result resp = Inr (JObj kvs)"
    "r = JObj (AList.update ''action'' (JStr ''register'') kvs)"
    using a by blast
  have "resp = second_user_result"
    using t(1)
    by (simp add: second_user_world_def second_user_fetch_def fresh_def new_SeedKey_def
        example_options_def)
  then have k: "kvs = [(''success'', JBool True), (''action'', JStr ''login''),
                (''user'', JObj [(''id'', JStr ''u2'')]),
                (''token'', JObj [(''accessToken'', JStr ''at2'')])]"
    using t(2) by (simp add: second_user_result_def)
  have g1: "fst (register fresh second_user_world JUndefined []) =
     Inr (JObj [(''success'', JBool True), (''action'', JStr ''register''),
                (''user'', JObj [(''id'', JStr ''u2'')]),
                (''token'', JObj [(''accessToken'', JStr ''at2'')])])"
    using a t(3) k by simp
  have g2: "json_result second_user_result =
     Inr (JObj [(''success'', JBool True), (''action'', JStr ''login''),
                (''user'', JObj [(''id'', JStr ''u2'')]),
                (''token'', JObj [(''accessToken'', JStr ''at2'')])])"
    by (simp add: second_user_result_def)
  obtain r' tr2 where b: "authenticate fresh known_user_world [] = (Inr r', tr2)"
    using known_user_authenticate [of "[]"] by (cases "authenticate fresh known_user_world []") simp
  have "\<forall>r tr'. authenticate fresh known_user_world [] = (Inr r, tr') \<longrightarrow>
      get_prop r ''action'' = JStr ''login''"
    using flows_force_action [of fresh known_user_world JUndefined "[]"] by blast
  then have d: "get_prop r' ''action'' = JStr ''login''" using b by blast
  have g4: "get_prop (projr (fst (authenticate fresh known_user_world []))) ''action'' = JStr ''login''"
    using b d by simp
  show ?thesis by (intro conjI g1 g2 known_user_authenticate g4)
qed

subsection \<open>Status probes\<close>

lemma get_prop_nullish: "nullish v \<Longrightarrow> get_prop v k = JUndefined"
  by (cases v) simp_all

lemma await_sync_Inr: "await (sync (Inr x)) f tr = f x tr"
  by (simp add: await_def sync_def)

lemma isAvailable_eq:
  "isAvailable sk w tr =
     (Inr (\<exists>v. extension w tr check_available (JObj []) 3000 = Inr v \<and> get_prop v ''available'' = JBool True),
      tr @ [ExtCall check_available (JObj []) 3000 (extension w tr check_available (JObj []) 3000)])"
  by (cases "extension w tr check_available (JObj []) 3000")
     (auto simp: isAvailable_def send_def effective_timeout_def Let_def member_def get_prop_nullish)

lemma isInitialized_eq:
  "isInitialized sk w tr =
     (Inr (\<exists>v. extension w tr is_initialized (JObj []) 3000 = Inr v \<and> get_prop v ''initialized'' = JBool True),
      tr @ [ExtCall is_initialized (JObj []) 3000 (extension w tr is_initialized (JObj []) 3000)])"
  by (cases "extension w tr is_initialized (JObj []) 3000")
     (auto simp: isInitialized_def send_def effective_timeout_def Let_def member_def get_prop_nullish)

lemma send_fails:
  "extension w tr a p (effective_timeout sk c) = Inl e \<Longrightarrow> fst (send sk w a p c tr) = Inl e"
  by (simp add: send_def Let_def)

lemma await_fails: "fst (m tr) = Inl e \<Longrightarrow> fst (await m f tr) = Inl e"
  by (cases "m tr") (simp add: await_def)

text \<open>
  C9, as stated, fails in its last clause: the two probes are not the only operations that
  turn a failure into a negative result. With a custodian that never answers,
  \<^verbatim>\<open>getExtensionStatus()\<close> does not reject; it resolves to \<^verbatim>\<open>installed: false\<close>.
\<close>

theorem status_swallows_failure_counterexample:
  "extension silent_world [] check_available (JObj []) 3000 = Inl timeout_error
   \<and> fst (getExtensionStatus fresh silent_world []) =
       Inr \<lparr>installed = False, initialized = False,
            status_downloadUrl = Some EXTENSION_DOWNLOAD_URL\<rparr>"
  by (simp add: silent_world_def getExtensionStatus_def await_def isAvailable_eq sync_def)

text \<open>
  C9, amended. \<^verbatim>\<open>isAvailable()\<close> and \<^verbatim>\<open>isInitialized()\<close> always resolve to a boolean.
  Whenever the underlying send (with its timeout of 3000 ms) is rejected, by its timer, by an
  error response or by \<^verbatim>\<open>destroy\<close>, they resolve to \<^verbatim>\<open>false\<close>; when it is resolved with
  \<open>v\<close>, they resolve to whether \<^verbatim>\<open>v.available\<close> (\<^verbatim>\<open>v.initialized\<close>) is the boolean
  \<^verbatim>\<open>true\<close>. They are the only operations that catch the failure of their own send:
  \<^verbatim>\<open>getPublicKey\<close>, \<^verbatim>\<open>signChallenge\<close> and \<^verbatim>\<open>signMessage\<close> reject with it unchanged.
  The two operations built on the probes do not propagate it either:
  \<^verbatim>\<open>getExtensionStatus()\<close> never rejects and reports a failed probe as \<^verbatim>\<open>installed: false\<close>
  (or \<^verbatim>\<open>initialized: false\<close>), and \<^verbatim>\<open>checkExtension()\<close> rejects with a new
  \<^verbatim>\<open>ExtensionNotFoundError\<close> (or \<^verbatim>\<open>ExtensionNotConfiguredError\<close>) in its place.
\<close>

theorem probes_never_reject:
  "(\<exists>b. fst (isAvailable sk w tr) = Inr b)
   \<and> (\<exists>b. fst (isInitialized sk w tr) = Inr b)
   \<and> (\<forall>e. extension w tr check_available (JObj []) 3000 = Inl e \<longrightarrow>
         fst (isAvailable sk w tr) = Inr False)
   \<and> (\<forall>e. extension w tr is_initialized (JObj []) 3000 = Inl e \<longrightarrow>
         fst (isInitialized sk w tr) = Inr False)
   \<and> (\<forall>v. extension w tr check_available (JObj []) 3000 = Inr v \<longrightarrow>
         fst (isAvailable sk w tr) = Inr (get_prop v ''available'' = JBool True))
   \<and> (\<forall>v. extension w tr is_initialized (JObj []) 3000 = Inr v \<longrightarrow>
         fst (isInitialized sk w tr) = Inr (get_prop v ''initialized'' = JBool True))
   \<and> (\<forall>e. extension w tr get_public_key (JObj [(''domain'', JStr (hostname w))]) (timeout sk) = Inl e
         \<longrightarrow> fst (getPublicKey sk w tr) = Inl e)
   \<and> (\<forall>e. \<not> nullish challenge
         \<and> extension w tr sign_challenge
               (JObj [(''challenge'', challenge), (''domain'', JStr (hostname w))]) (timeout sk) = Inl e
         \<longrightarrow> fst (signChallenge sk w challenge tr) = Inl e)
   \<and> (\<forall>e. \<not> nullish msg
         \<and> extension w tr sign_message
               (JObj [(''message'', msg), (''domain'', JStr (hostname w))]) (timeout sk) = Inl e
         \<longrightarrow> fst (signMessage sk w msg tr) = Inl e)
   \<and> (\<exists>st. fst (getExtensionStatus sk w tr) = Inr st)
   \<and> (\<forall>e. extension w tr check_available (JObj []) 3000 = Inl e \<longrightarrow>
         fst (getExtensionStatus sk w tr) =
           Inr \<lparr>installed = False, initialized = False,
                status_downloadUrl = Some EXTENSION_DOWNLOAD_URL\<rparr>
         \<and> fst (checkExtension sk w tr) = Inl (new_ExtensionNotFoundError JUndefined))
   \<and> (\<forall>v e. extension w tr check_available (JObj []) 3000 = Inr v
         \<and> get_prop v ''available'' = JBool True
         \<and> extension w (tr @ [ExtCall check_available (JObj []) 3000 (Inr v)])
               is_initialized (JObj []) 3000 = Inl e \<longrightarrow>
         fst (getExtensionStatus sk w tr) =
           Inr \<lparr>installed = True, initialized = False, status_downloadUrl = None\<rparr>
         \<and> fst (checkExtension sk w tr) = Inl (new_ExtensionNotConfiguredError JUndefined))"
proof (intro conjI allI impI)
  show "\<exists>b. fst (isAvailable sk w tr) = Inr b" by (simp add: isAvailable_eq)
  show "\<exists>b. fst (isInitialized sk w tr) = Inr b" by (simp add: isInitialized_eq)
next
  fix e assume "extension w tr check_available (JObj []) 3000 = Inl e"
  then show "fst (isAvailable sk w tr) = Inr False" by (simp add: isAvailable_eq)
next
  fix e assume "extension w tr is_initialized (JObj []) 3000 = Inl e"
  then show "fst (isInitialized sk w tr) = Inr False" by (simp add: isInitialized_eq)
next
  fix v assume "extension w tr check_available (JObj []) 3000 = Inr v"
  then show "fst (isAvailable sk w tr) = Inr (get_prop v ''available'' = JBool True)"
    by (simp add: isAvailable_eq)
next
  fix v assume "extension w tr is_initialized (JObj []) 3000 = Inr v"
  then show "fst (isInitialized sk w tr) = Inr (get_prop v ''initialized'' = JBool True)"
    by (simp add: isInitialized_eq)
next
  fix e
  assume "extension w tr get_public_key (JObj [(''domain'', JStr (hostname w))]) (timeout sk) = Inl e"
  then show "fst (getPublicKey sk w tr) = Inl e"
    unfolding getPublicKey_def
    by (intro await_fails send_fails) (simp add: effective_timeout_def)
next
  fix e
  assume h: "\<not> nullish challenge
         \<and> extension w tr sign_challenge
               (JObj [(''challenge'', challenge), (''domain'', JStr (hostname w))]) (timeout sk) = Inl e"
  then have "fst (send sk w sign_challenge
               (JObj [(''challenge'', challenge), (''domain'', JStr (hostname w))]) None tr) = Inl e"
    by (intro send_fails) (simp add: effective_timeout_def)
  then show "fst (signChallenge sk w challenge tr) = Inl e"
    using h by (simp add: signChallenge_def member_def await_sync_Inr await_fails)
next
  fix e
  assume h: "\<not> nullish msg
         \<and> extension w tr sign_message
               (JObj [(''message'', msg), (''domain'', JStr (hostname w))]) (timeout sk) = Inl e"
  then have "fst (send sk w sign_message
               (JObj [(''message'', msg), (''domain'', JStr (hostname w))]) None tr) = Inl e"
    by (intro send_fails) (simp add: effective_timeout_def)
  then show "fst (signMessage sk w msg tr) = Inl e"
    using h by (simp add: signMessage_def member_def await_sync_Inr await_fails)
next
  show "\<exists>st. fst (getExtensionStatus sk w tr) = Inr st"
    by (simp add: getExtensionStatus_def await_def isAvailable_eq isInitialized_eq sync_def)
next
  fix e assume h: "extension w tr check_available (JObj []) 3000 = Inl e"
  show "fst (getExtensionStatus sk w tr) =
           Inr \<lparr>installed = False, initialized = False,
                status_downloadUrl = Some EXTENSION_DOWNLOAD_URL\<rparr>"
    using h by (simp add: getExtensionStatus_def await_def isAvailable_eq sync_def)
  show "fst (checkExtension sk w tr) = Inl (new_ExtensionNotFoundError JUndefined)"
    using h by (simp add: checkExtension_def await_def isAvailable_eq sync_def)
next
  fix v e
  assume h: "extension w tr check_available (JObj []) 3000 = Inr v
         \<and> get_prop v ''available'' = JBool True
         \<and> extension w (tr @ [ExtCall check_available (JObj []) 3000 (Inr v)])
               is_initialized (JObj []) 3000 = Inl e"
  show "fst (getExtensionStatus sk w tr) =
           Inr \<lparr>installed = True, initialized = False, status_downloadUrl = None\<rparr>"
    using h by (simp add: getExtensionStatus_def await_def isAvailable_eq isInitialized_eq sync_def)
  show "fst (checkExtension sk w tr) = Inl (new_ExtensionNotConfiguredError JUndefined)"
    using h by (simp add: checkExtension_def await_def isAvailable_eq isInitialized_eq sync_def)
qed

theorem probes_never_reject_witness:
  "extension silent_world [] check_available (JObj []) 3000 = Inl timeout_error
   \<and> fst (isAvailable fresh silent_world []) = Inr False
   \<and> extension silent_world [] is_initialized (JObj []) 3000 = Inl timeout_error
   \<and> fst (isInitialized fresh silent_world []) = Inr False
   \<and> extension new_user_world [] check_available (JObj []) 3000 = Inr (JObj [(''available'', JBool True)])
   \<and> fst (isAvailable fresh new_user_world []) = Inr True
   \<and> extension new_user_world [] is_initialized (JObj []) 3000 = Inr (JObj [(''initialized'', JBool False)])
   \<and> fst (isInitialized fresh new_user_world []) = Inr False
   \<and> extension silent_world [] get_public_key (JObj [(''domain'', JStr (hostname silent_world))])
         (timeout fresh) = Inl timeout_error
   \<and> fst (getPublicKey fresh silent_world []) = Inl timeout_error
   \<and> \<not> nullish (JStr ''hello'')
   \<and> extension silent_world [] sign_message
         (JObj [(''message'', JStr ''hello''), (''domain'', JStr (hostname silent_world))])
         (timeout fresh) = Inl timeout_error
   \<and> fst (signMessage fresh silent_world (JStr ''hello'') []) = Inl timeout_error
   \<and> \<not> nullish (JObj [])
   \<and> extension silent_world [] sign_challenge
         (JObj [(''challenge'', JObj []), (''domain'', JStr (hostname silent_world))])
         (timeout fresh) = Inl timeout_error
   \<and> fst (signChallenge fresh silent_world (JObj []) []) = Inl timeout_error
   \<and> fst (getExtensionStatus fresh silent_world []) =
       Inr \<lparr>installed = False, initialized = False,
            status_downloadUrl = Some EXTENSION_DOWNLOAD_URL\<rparr>
   \<and> fst (checkExtension fresh silent_world []) = Inl (new_ExtensionNotFoundError JUndefined)
   \<and> extension installed_only_world [] check_available (JObj []) 3000 =
       Inr (JObj [(''available'', JBool True)])
   \<and> get_prop (JObj [(''available'', JBool True)]) ''available'' = JBool True
   \<and> extension installed_only_world
         ([] @ [ExtCall check_available (JObj []) 3000 (Inr (JObj [(''available'', JBool True)]))])
         is_initialized (JObj []) 3000 = Inl timeout_error
   \<and> fst (getExtensionStatus fresh installed_only_world []) =
       Inr \<lparr>installed = True, initialized = False, status_downloadUrl = None\<rparr>
   \<and> fst (checkExtension fresh installed_only_world []) =
       Inl (new_ExtensionNotConfiguredError JUndefined)"
proof -
  have s: "extension silent_world tr a p t = Inl timeout_error" for tr a p t
    by (simp add: silent_world_def)
  have n1: "extension new_user_world [] check_available (JObj []) 3000 = Inr (JObj [(''available'', JBool True)])"
    by (simp add: new_user_world_def example_extension_def)
  have n2: "extension new_user_world [] is_initialized (JObj []) 3000 = Inr (JObj [(''initialized'', JBool False)])"
    by (simp add: new_user_world_def example_extension_def)
  note S = probes_never_reject [of fresh silent_world "[]" "JObj []" "JStr ''hello''"]
  note N = probes_never_reject [of fresh new_user_world "[]" "JObj []" "JStr ''hello''"]
  have a1: "fst (isAvailable fresh silent_world []) = Inr False" using S s by blast
  have a2: "fst (isInitialized fresh silent_world []) = Inr False" using S s by blast
  have a3: "fst (isAvailable fresh new_user_world []) = Inr True" using N n1 by simp
  have a4: "fst (isInitialized fresh new_user_world []) = Inr False" using N n2 by simp
  have a5: "fst (getPublicKey fresh silent_world []) = Inl timeout_error" using S s by blast
  have a6: "fst (signMessage fresh silent_world (JStr ''hello'') []) = Inl timeout_error"
    using S s by simp
  have a7: "fst (signChallenge fresh silent_world (JObj []) []) = Inl timeout_error"
    using S s by simp
  have u1: "\<not> nullish (JStr ''hello'')" by simp
  have u2: "\<not> nullish (JObj [])" by simp
  have a8: "fst (getExtensionStatus fresh silent_world []) =
       Inr \<lparr>installed = False, initialized = False,
            status_downloadUrl = Some EXTENSION_DOWNLOAD_URL\<rparr>"
    using S s by blast
  have a9: "fst (checkExtension fresh silent_world []) = Inl (new_ExtensionNotFoundError JUndefined)"
    using S s by blast
  have i1: "extension installed_only_world [] check_available (JObj []) 3000 =
       Inr (JObj [(''available'', JBool True)])"
    by (simp add: installed_only_world_def installed_only_extension_def)
  have i2: "get_prop (JObj [(''available'', JBool True)]) ''available'' = JBool True"
    by simp
  have i3: "extension installed_only_world
         ([] @ [ExtCall check_available (JObj []) 3000 (Inr (JObj [(''available'', JBool True)]))])
         is_initialized (JObj []) 3000 = Inl timeout_error"
    by (simp add: installed_only_world_def installed_only_extension_def)
  note I = probes_never_reject [of fresh installed_only_world "[]" "JObj []" "JStr ''hello''"]
  have "\<forall>v e. extension installed_only_world [] check_available (JObj []) 3000 = Inr v
         \<and> get_prop v ''available'' = JBool True
         \<and> extension installed_only_world ([] @ [ExtCall check_available (JObj []) 3000 (Inr v)])
               is_initialized (JObj []) 3000 = Inl e \<longrightarrow>
         fst (getExtensionStatus fresh installed_only_world []) =
           Inr \<lparr>installed = True, initialized = False, status_downloadUrl = None\<rparr>
         \<and> fst (checkExtension fresh installed_only_world []) =
           Inl (new_ExtensionNotConfiguredError JUndefined)"
    using I by blast
  then have a10: "fst (getExtensionStatus fresh installed_only_world []) =
           Inr \<lparr>installed = True, initialized = False, status_downloadUrl = None\<rparr>
         \<and> fst (checkExtension fresh installed_only_world []) =
           Inl (new_ExtensionNotConfiguredError JUndefined)"
    using i1 i2 i3 by blast
  show ?thesis
    by (intro conjI s n1 n2 a1 a2 a3 a4 a5 a6 a7 u1 u2 a8 a9 i1 i2 i3
        a10 [THEN conjunct1] a10 [THEN conjunct2])
qed

end
